theory Spec2Isabelle
  imports Main "HOL-Library.Word" "HOL-Library.Sublist"
begin

section \<open>Runtime values shared by the library\<close>

text \<open>
  Byte buffers are lists of 8-bit words, JavaScript strings are lists of UTF-16 code
  units, and a \<open>BN\<close> (bn.js) is an unbounded integer with a sign. A \<open>PublicKey\<close> is
  identified with the 32 bytes that \<open>toBuffer()\<close> returns. Every \<open>throw\<close> of
  the source or of the libraries it calls is a value \<open>Inl e\<close>.
\<close>

type_synonym byte = "8 word"
type_synonym Buffer = "byte list"
type_synonym jsstring = "16 word list"
type_synonym BN = int
type_synonym PublicKey = "byte list"

datatype error = AssertionFailed | RangeError | DerivationFailure

definition bindE :: "error + 'a \<Rightarrow> ('a \<Rightarrow> error + 'b) \<Rightarrow> error + 'b" where
  "bindE m f = (case m of Inl e \<Rightarrow> Inl e | Inr x \<Rightarrow> f x)"

definition js :: "string \<Rightarrow> jsstring" where
  \<comment> \<open>an ASCII literal of the source as UTF-16 code units\<close>
  "js s = map (\<lambda>c. of_nat (of_char c)) s"

subsection \<open>bn.js arithmetic\<close>

definition bn_mul :: "BN \<Rightarrow> BN \<Rightarrow> BN" where
  "bn_mul a b = a * b"

definition bn_div :: "BN \<Rightarrow> BN \<Rightarrow> error + BN" where
  \<comment> \<open>\<open>a.div(b)\<close>: asserts a non-zero divisor, then truncates towards zero\<close>
  "bn_div a b = (if b = 0 then Inl AssertionFailed
                 else Inr (sgn a * sgn b * (\<bar>a\<bar> div \<bar>b\<bar>)))"

fun le_bytes :: "nat \<Rightarrow> nat \<Rightarrow> Buffer" where
  "le_bytes 0 n = []"
| "le_bytes (Suc k) n = of_nat (n mod 256) # le_bytes k (n div 256)"

definition toArrayLike_le :: "BN \<Rightarrow> nat \<Rightarrow> error + Buffer" where
  \<comment> \<open>\<open>x.toArrayLike(Buffer, 'le', len)\<close>: the magnitude of \<open>x\<close>, little-endian,
      zero-padded to \<open>len\<close> bytes; asserts that the magnitude fits\<close>
  "toArrayLike_le x len = (if nat \<bar>x\<bar> < 256 ^ len then Inr (le_bytes len (nat \<bar>x\<bar>))
                           else Inl AssertionFailed)"

definition writeUInt32LE :: "nat \<Rightarrow> error + Buffer" where
  \<comment> \<open>\<open>Buffer.alloc(4)\<close> followed by \<open>writeUInt32LE(v, 0)\<close>\<close>
  "writeUInt32LE v = (if v < 2 ^ 32 then Inr (le_bytes 4 v) else Inl RangeError)"

subsection \<open>JavaScript numbers\<close>

text \<open>
  A JavaScript number is an IEEE 754 binary64 value. \<open>Finite m e\<close> stands for
  \<open>m * 2^e\<close>; results of \<open>-\<close>, \<open>*\<close> and \<open>/\<close> are the exact result rounded
  to the nearest representable value, ties to even, with gradual underflow and overflow
  to infinity. The sign of zero is not recorded.
\<close>

datatype double = Finite int int | PosInf | NegInf | NaN

fun bitlen :: "nat \<Rightarrow> nat" where
  "bitlen n = (if n = 0 then 0 else Suc (bitlen (n div 2)))"

definition ilog2_frac :: "nat \<Rightarrow> nat \<Rightarrow> int" where
  \<comment> \<open>\<open>\<lfloor>log2 (n / d)\<rfloor>\<close> for positive \<open>n\<close> and \<open>d\<close>\<close>
  "ilog2_frac n d =
     (let k = int (bitlen n) - int (bitlen d)
      in if d * 2 ^ nat k \<le> n * 2 ^ nat (- k) then k else k - 1)"

definition round_half_even :: "nat \<Rightarrow> nat \<Rightarrow> nat" where
  \<comment> \<open>the integer nearest to \<open>n / d\<close>, the even one on a tie\<close>
  "round_half_even n d =
     (let q = n div d; r = n mod d
      in if 2 * r < d then q else if d < 2 * r then q + 1 else if even q then q else q + 1)"

definition fl_pos :: "nat \<Rightarrow> nat \<Rightarrow> double" where
  \<comment> \<open>the binary64 value nearest to the positive rational \<open>n / d\<close>\<close>
  "fl_pos n d =
     (let e = max (ilog2_frac n d - 52) (- 1074);
          m = round_half_even (n * 2 ^ nat (- e)) (d * 2 ^ nat e)
      in if 2 ^ nat (1024 - e) \<le> m then PosInf else Finite (int m) e)"

definition dbl_neg :: "double \<Rightarrow> double" where
  "dbl_neg x = (case x of Finite m e \<Rightarrow> Finite (- m) e | PosInf \<Rightarrow> NegInf
                | NegInf \<Rightarrow> PosInf | NaN \<Rightarrow> NaN)"

definition fl :: "int \<Rightarrow> nat \<Rightarrow> double" where
  \<comment> \<open>the binary64 value nearest to \<open>n / d\<close>, for \<open>d > 0\<close>\<close>
  "fl n d = (if n = 0 then Finite 0 0
             else if 0 < n then fl_pos (nat n) d
             else dbl_neg (fl_pos (nat (- n)) d))"

definition dbl_sign :: "double \<Rightarrow> int" where
  "dbl_sign x = (case x of Finite m e \<Rightarrow> sgn m | PosInf \<Rightarrow> 1 | NegInf \<Rightarrow> - 1 | NaN \<Rightarrow> 0)"

definition inf_of_sign :: "int \<Rightarrow> double" where
  "inf_of_sign s = (if s = 0 then NaN else if 0 < s then PosInf else NegInf)"

fun dbl_mul :: "double \<Rightarrow> double \<Rightarrow> double" where
  "dbl_mul NaN y = NaN"
| "dbl_mul x NaN = NaN"
| "dbl_mul (Finite m1 e1) (Finite m2 e2) =
     fl (m1 * m2 * 2 ^ nat (e1 + e2)) (2 ^ nat (- (e1 + e2)))"
| "dbl_mul x y = inf_of_sign (dbl_sign x * dbl_sign y)"

fun dbl_div :: "double \<Rightarrow> double \<Rightarrow> double" where
  "dbl_div NaN y = NaN"
| "dbl_div x NaN = NaN"
| "dbl_div (Finite m1 e1) (Finite m2 e2) =
     (if m2 = 0 then inf_of_sign (sgn m1)
      else fl (sgn m2 * m1 * 2 ^ nat (e1 - e2)) (nat \<bar>m2\<bar> * 2 ^ nat (e2 - e1)))"
| "dbl_div (Finite m1 e1) y = Finite 0 0"
| "dbl_div x (Finite m2 e2) = inf_of_sign (dbl_sign x * (if m2 < 0 then - 1 else 1))"
| "dbl_div x y = NaN"

fun dbl_sub :: "double \<Rightarrow> double \<Rightarrow> double" where
  "dbl_sub NaN y = NaN"
| "dbl_sub x NaN = NaN"
| "dbl_sub (Finite m1 e1) (Finite m2 e2) =
     (let e = min e1 e2
      in fl ((m1 * 2 ^ nat (e1 - e) - m2 * 2 ^ nat (e2 - e)) * 2 ^ nat e) (2 ^ nat (- e)))"
| "dbl_sub (Finite m1 e1) y = dbl_neg y"
| "dbl_sub x (Finite m2 e2) = x"
| "dbl_sub x y = (if x = y then NaN else x)"

fun dbl_lt :: "double \<Rightarrow> double \<Rightarrow> bool" where
  \<comment> \<open>\<open><\<close> on two numbers: false whenever an operand is NaN\<close>
  "dbl_lt NaN y = False"
| "dbl_lt x NaN = False"
| "dbl_lt (Finite m1 e1) (Finite m2 e2) = (m1 * 2 ^ nat (e1 - e2) < m2 * 2 ^ nat (e2 - e1))"
| "dbl_lt x PosInf = (x \<noteq> PosInf)"
| "dbl_lt NegInf y = (y \<noteq> NegInf)"
| "dbl_lt x y = False"

definition dbl_falsy :: "double \<Rightarrow> bool" where
  \<comment> \<open>the numbers that \<open>||\<close> skips: zero and NaN\<close>
  "dbl_falsy x = (case x of Finite m e \<Rightarrow> m = 0 | NaN \<Rightarrow> True | _ \<Rightarrow> False)"

definition Math_floor :: "double \<Rightarrow> double" where
  "Math_floor x =
     (case x of
        Finite m e \<Rightarrow> Finite (if 0 \<le> e then m * 2 ^ nat e else m div 2 ^ nat (- e)) 0
      | _ \<Rightarrow> x)"

definition BN_toNumber :: "BN \<Rightarrow> error + double" where
  \<comment> \<open>\<open>x.toNumber()\<close>: asserts that the magnitude needs at most 53 bits\<close>
  "BN_toNumber x = (if \<bar>x\<bar> < 2 ^ 53 then Inr (Finite x 0) else Inl AssertionFailed)"

definition BN_of_number :: "double \<Rightarrow> error + BN" where
  \<comment> \<open>\<open>new BN(v)\<close> for a number \<open>v\<close>: the constructor reads \<open>v || 0\<close>, so NaN gives
      0; a fraction is cut off towards zero; it asserts \<open>|v| < 2^53\<close>, which fails for
      the infinities too\<close>
  "BN_of_number x =
     (case x of
        Finite m e \<Rightarrow>
          (let v = (if 0 \<le> e then m * 2 ^ nat e else sgn m * (\<bar>m\<bar> div 2 ^ nat (- e)))
           in if \<bar>v\<bar> < 2 ^ 53 then Inr v else Inl AssertionFailed)
      | NaN \<Rightarrow> Inr 0
      | _ \<Rightarrow> Inl AssertionFailed)"

subsection \<open>Instructions and the address-derivation collaborator\<close>

record AccountMeta =
  pubkey :: PublicKey
  isSigner :: bool
  isWritable :: bool

record TransactionInstruction =
  keys :: "AccountMeta list"
  programId :: PublicKey
  data :: Buffer

record ValidationResult =
  isValid :: bool
  errors :: "jsstring list"

text \<open>
  The constants module and \<open>@solana/web3.js\<close> are outside the library's sources:
  the program identity, the well-known program addresses and
  \<open>PublicKey.findProgramAddressSync\<close> are parameters of the model.
\<close>

record Env =
  PROGRAM_ID :: PublicKey
  SystemProgram_programId :: PublicKey
  TOKEN_PROGRAM_ID :: PublicKey
  findProgramAddressSync :: "Buffer list \<Rightarrow> PublicKey \<Rightarrow> error + (PublicKey \<times> nat)"

definition SEEDS_SYSTEM_STATE :: jsstring where "SEEDS_SYSTEM_STATE = js ''system_state''"
definition SEEDS_MAIN_TREASURY :: jsstring where "SEEDS_MAIN_TREASURY = js ''main_treasury''"
definition SEEDS_POOL_STATE_V2 :: jsstring where "SEEDS_POOL_STATE_V2 = js ''pool_state_v2''"

definition PoolInstruction_Swap :: byte where "PoolInstruction_Swap = 9"
definition PoolInstruction_DonateSol :: byte where "PoolInstruction_DonateSol = 13"
definition PoolInstruction_ConsolidatePoolFees :: byte where "PoolInstruction_ConsolidatePoolFees = 15"


section \<open>utils: ratio arithmetic\<close>

definition calculateRequiredLiquidity :: "BN \<Rightarrow> BN \<Rightarrow> BN \<Rightarrow> error + BN" where
  "calculateRequiredLiquidity depositAmount depositTokenRatio otherTokenRatio =
     bn_div (bn_mul depositAmount otherTokenRatio) depositTokenRatio"

definition calculateSwapOutput :: "BN \<Rightarrow> BN \<Rightarrow> BN \<Rightarrow> error + BN" where
  "calculateSwapOutput inputAmount inputRatio outputRatio =
     bn_div (bn_mul inputAmount outputRatio) inputRatio"

definition applySlippage :: "BN \<Rightarrow> double \<Rightarrow> error + BN" where
  "applySlippage expectedAmount slippageTolerance =
     (let tolerance =
            Math_floor (dbl_mul (dbl_sub (Finite 100 0) slippageTolerance) (Finite 100 0))
      in bindE (BN_of_number tolerance) (\<lambda>toleranceBN.
         bn_div (bn_mul expectedAmount toleranceBN) 10000))"

section \<open>instructions/liquidity: share estimates\<close>

definition estimateLPTokensFromDeposit :: "BN \<Rightarrow> BN \<Rightarrow> BN \<Rightarrow> error + BN" where
  "estimateLPTokensFromDeposit depositAmount currentPoolBalance currentLpSupply =
     (if currentLpSupply = 0 \<or> currentPoolBalance = 0 then Inr depositAmount
      else bn_div (bn_mul depositAmount currentLpSupply) currentPoolBalance)"

definition estimateTokensFromWithdraw :: "BN \<Rightarrow> BN \<Rightarrow> BN \<Rightarrow> error + BN" where
  "estimateTokensFromWithdraw lpAmount currentPoolBalance currentLpSupply =
     (if currentLpSupply = 0 then Inr 0
      else bn_div (bn_mul lpAmount currentPoolBalance) currentLpSupply)"

section \<open>utils: derived addresses of the system state and the treasury\<close>

fun utf8_units :: "jsstring \<Rightarrow> Buffer" where
  \<comment> \<open>\<open>Buffer.from(s, 'utf8')\<close>: a surrogate pair becomes four bytes, a lone
      surrogate the three bytes of U+FFFD\<close>
  "utf8_units [] = []"
| "utf8_units (u # us) =
     (let c = unat u in
      if c < 0x80 then of_nat c # utf8_units us
      else if c < 0x800 then
        of_nat (0xC0 + c div 64) # of_nat (0x80 + c mod 64) # utf8_units us
      else if 0xD800 \<le> c \<and> c < 0xDC00 then
        (case us of
           [] \<Rightarrow> [0xEF, 0xBF, 0xBD]
         | v # vs \<Rightarrow>
             (let d = unat v in
              if 0xDC00 \<le> d \<and> d < 0xE000 then
                (let p = 0x10000 + (c - 0xD800) * 1024 + (d - 0xDC00) in
                 of_nat (0xF0 + p div 262144) # of_nat (0x80 + (p div 4096) mod 64) #
                 of_nat (0x80 + (p div 64) mod 64) # of_nat (0x80 + p mod 64) # utf8_units vs)
              else 0xEF # 0xBF # 0xBD # utf8_units us))
      else if 0xDC00 \<le> c \<and> c < 0xE000 then 0xEF # 0xBF # 0xBD # utf8_units us
      else of_nat (0xE0 + c div 4096) # of_nat (0x80 + (c div 64) mod 64) #
           of_nat (0x80 + c mod 64) # utf8_units us)"

definition deriveSystemStatePDA :: "Env \<Rightarrow> error + (PublicKey \<times> nat)" where
  "deriveSystemStatePDA env =
     findProgramAddressSync env [utf8_units SEEDS_SYSTEM_STATE] (PROGRAM_ID env)"

definition deriveMainTreasuryPDA :: "Env \<Rightarrow> error + (PublicKey \<times> nat)" where
  "deriveMainTreasuryPDA env =
     findProgramAddressSync env [utf8_units SEEDS_MAIN_TREASURY] (PROGRAM_ID env)"

section \<open>instructions/swap\<close>

record SwapParams =
  poolStatePDA :: PublicKey
  amountIn :: BN
  expectedAmountOut :: BN
  inputTokenMint :: PublicKey
  userAuthority :: PublicKey
  userInputAccount :: PublicKey
  userOutputAccount :: PublicKey
  slippageTolerance :: "double option"

definition createSwapInstruction :: "Env \<Rightarrow> SwapParams \<Rightarrow> error + TransactionInstruction" where
  "createSwapInstruction env params =
     bindE (deriveSystemStatePDA env) (\<lambda>(systemStatePDA, _).
     bindE (deriveMainTreasuryPDA env) (\<lambda>(mainTreasuryPDA, _).
     \<comment> \<open>\<open>params.slippageTolerance || 1\<close>: undefined, 0 and NaN are falsy\<close>
     let slippageTolerance' =
           (case slippageTolerance params of None \<Rightarrow> Finite 1 0
            | Some t \<Rightarrow> if dbl_falsy t then Finite 1 0 else t) in
     bindE (applySlippage (expectedAmountOut params) slippageTolerance') (\<lambda>minAmountOut.
     bindE (toArrayLike_le (amountIn params) 8) (\<lambda>amountInBytes.
     bindE (toArrayLike_le minAmountOut 8) (\<lambda>minAmountOutBytes.
     let instructionData =
           [PoolInstruction_Swap] @ inputTokenMint params @ amountInBytes @ minAmountOutBytes
     in Inr \<lparr> keys =
           [ \<lparr> pubkey = userAuthority params, isSigner = True, isWritable = True \<rparr>,
             \<lparr> pubkey = systemStatePDA, isSigner = False, isWritable = False \<rparr>,
             \<lparr> pubkey = poolStatePDA params, isSigner = False, isWritable = True \<rparr>,
             \<lparr> pubkey = userInputAccount params, isSigner = False, isWritable = True \<rparr>,
             \<lparr> pubkey = userOutputAccount params, isSigner = False, isWritable = True \<rparr>,
             \<lparr> pubkey = TOKEN_PROGRAM_ID env, isSigner = False, isWritable = False \<rparr>,
             \<lparr> pubkey = SystemProgram_programId env, isSigner = False, isWritable = False \<rparr>,
             \<lparr> pubkey = mainTreasuryPDA, isSigner = False, isWritable = True \<rparr>,
             \<lparr> pubkey = inputTokenMint params, isSigner = False, isWritable = False \<rparr> ],
           programId = PROGRAM_ID env,
           data = instructionData \<rparr>)))))"

definition validateSwapParams :: "SwapParams \<Rightarrow> ValidationResult" where
  "validateSwapParams params =
     (let errs = [];
          errs = (if amountIn params \<le> 0
                  then errs @ [js ''Input amount must be positive''] else errs);
          errs = (if expectedAmountOut params \<le> 0
                  then errs @ [js ''Expected output amount must be positive''] else errs);
          errs = (case slippageTolerance params of
                    None \<Rightarrow> errs
                  | Some t \<Rightarrow>
                      if dbl_lt t (Finite 0 0) \<or> dbl_lt (Finite 50 0) t
                      then errs @ [js ''Slippage tolerance must be between 0 and 50 percent'']
                      else errs);
          maxSwap = (10::int) ^ 15;
          errs = (if amountIn params \<ge> maxSwap
                  then errs @ [js ''Swap amount too large''] else errs)
      in \<lparr> isValid = (length errs = 0), errors = errs \<rparr>)"

section \<open>instructions/pool: validation\<close>

record PoolCreationParams =
  tokenAMint :: PublicKey
  tokenBMint :: PublicKey
  ratioA :: BN
  ratioB :: BN
  userAuthority :: PublicKey

definition validatePoolCreationParams :: "PoolCreationParams \<Rightarrow> ValidationResult" where
  "validatePoolCreationParams params =
     (let errs = [];
          errs = (if ratioA params \<le> 0
                  then errs @ [js ''Ratio A must be positive''] else errs);
          errs = (if ratioB params \<le> 0
                  then errs @ [js ''Ratio B must be positive''] else errs);
          errs = (if tokenAMint params = tokenBMint params
                  then errs @ [js ''Token A and Token B must be different''] else errs);
          maxRatio = (10::int) ^ 18;
          errs = (if ratioA params \<ge> maxRatio \<or> ratioB params \<ge> maxRatio
                  then errs @ [js ''Ratios too large (max 10^18)''] else errs)
      in \<lparr> isValid = (length errs = 0), errors = errs \<rparr>)"


section \<open>utils: donation message\<close>

definition encodeMessage :: "jsstring \<Rightarrow> nat \<Rightarrow> error + Buffer" where
  \<comment> \<open>\<open>message.slice(0, maxLength)\<close> counts UTF-16 code units\<close>
  "encodeMessage message maxLength =
     (let truncatedMessage = take maxLength message;
          messageBuffer = utf8_units truncatedMessage
      in bindE (writeUInt32LE (length messageBuffer)) (\<lambda>lengthBuffer.
         Inr (lengthBuffer @ messageBuffer)))"

section \<open>instructions/treasury\<close>

record DonationParams =
  donor :: PublicKey
  amount :: BN
  message :: "jsstring option"

definition donateSolData :: "BN \<Rightarrow> jsstring \<Rightarrow> error + Buffer" where
  \<comment> \<open>the payload that \<open>createDonateSolInstruction\<close> serialises\<close>
  "donateSolData amount' message' =
     bindE (encodeMessage message' 200) (\<lambda>messageBuffer.
     bindE (toArrayLike_le amount' 8) (\<lambda>amountBytes.
     Inr ([PoolInstruction_DonateSol] @ amountBytes @ messageBuffer)))"

definition createDonateSolInstruction ::
  "Env \<Rightarrow> DonationParams \<Rightarrow> error + TransactionInstruction" where
  "createDonateSolInstruction env params =
     (let message' = (case message params of None \<Rightarrow> [] | Some m \<Rightarrow> m) in
      bindE (deriveSystemStatePDA env) (\<lambda>(systemStatePDA, _).
      bindE (deriveMainTreasuryPDA env) (\<lambda>(mainTreasuryPDA, _).
      bindE (donateSolData (amount params) message') (\<lambda>instructionData.
      Inr \<lparr> keys =
            [ \<lparr> pubkey = donor params, isSigner = True, isWritable = True \<rparr>,
              \<lparr> pubkey = mainTreasuryPDA, isSigner = False, isWritable = True \<rparr>,
              \<lparr> pubkey = systemStatePDA, isSigner = False, isWritable = False \<rparr>,
              \<lparr> pubkey = SystemProgram_programId env, isSigner = False, isWritable = False \<rparr> ],
            programId = PROGRAM_ID env,
            data = instructionData \<rparr>))))"

definition createConsolidatePoolFeesInstruction ::
  "Env \<Rightarrow> PublicKey list \<Rightarrow> error + TransactionInstruction" where
  "createConsolidatePoolFeesInstruction env poolStatePDAs =
     bindE (deriveSystemStatePDA env) (\<lambda>(systemStatePDA, _).
     bindE (deriveMainTreasuryPDA env) (\<lambda>(mainTreasuryPDA, _).
     let limitedPools = take 20 poolStatePDAs in
     bindE (writeUInt32LE (length limitedPools)) (\<lambda>poolCountBuffer.
     let instructionData = [PoolInstruction_ConsolidatePoolFees] @ poolCountBuffer;
         accounts =
           [ \<lparr> pubkey = systemStatePDA, isSigner = False, isWritable = False \<rparr>,
             \<lparr> pubkey = mainTreasuryPDA, isSigner = False, isWritable = True \<rparr>,
             \<lparr> pubkey = SystemProgram_programId env, isSigner = False, isWritable = False \<rparr> ]
           @ map (\<lambda>poolPDA. \<lparr> pubkey = poolPDA, isSigner = False, isWritable = True \<rparr>)
                 limitedPools
     in Inr \<lparr> keys = accounts, programId = PROGRAM_ID env, data = instructionData \<rparr>)))"

definition validateConsolidationParams ::
  "(PublicKey \<Rightarrow> jsstring) \<Rightarrow> PublicKey list \<Rightarrow> ValidationResult" where
  \<comment> \<open>\<open>toBase58\<close> belongs to the key library and is a parameter; the size of the
      \<open>Set\<close> is the number of distinct strings\<close>
  "validateConsolidationParams toBase58 poolStatePDAs =
     (let errs = [];
          errs = (if length poolStatePDAs = 0
                  then errs @ [js ''At least one pool must be specified''] else errs);
          errs = (if length poolStatePDAs > 20
                  then errs @ [js ''Maximum 20 pools per consolidation transaction'']
                  else errs);
          uniquePools = remdups (map toBase58 poolStatePDAs);
          errs = (if length uniquePools \<noteq> length poolStatePDAs
                  then errs @ [js ''Duplicate pools found in consolidation list''] else errs)
      in \<lparr> isValid = (length errs = 0), errors = errs \<rparr>)"

section \<open>String primitives used by the log parsers\<close>

definition is_space :: "16 word \<Rightarrow> bool" where
  \<comment> \<open>the class \<open>\s\<close>, which is also what \<open>trim\<close> strips\<close>
  "is_space c = (c = 0x9 \<or> c = 0xA \<or> c = 0xB \<or> c = 0xC \<or> c = 0xD \<or> c = 0x20 \<or>
                 c = 0xA0 \<or> c = 0x1680 \<or> (0x2000 \<le> c \<and> c \<le> 0x200A) \<or> c = 0x2028 \<or>
                 c = 0x2029 \<or> c = 0x202F \<or> c = 0x205F \<or> c = 0x3000 \<or> c = 0xFEFF)"

definition is_digit :: "16 word \<Rightarrow> bool" where
  "is_digit c = (0x30 \<le> c \<and> c \<le> 0x39)"

fun str_includes :: "jsstring \<Rightarrow> jsstring \<Rightarrow> bool" where
  \<comment> \<open>\<open>s.includes(sub)\<close>\<close>
  "str_includes [] sub = (sub = [])"
| "str_includes (c # cs) sub = (prefix sub (c # cs) \<or> str_includes cs sub)"

definition match_here :: "jsstring \<Rightarrow> jsstring \<Rightarrow> jsstring option" where
  \<comment> \<open>the pattern \<open>label\s*(\d+)\<close> anchored at the start of \<open>s\<close>: the two
      character classes are disjoint, so backtracking into \<open>\s*\<close> never helps\<close>
  "match_here label s =
     (if prefix label s
      then (let ds = takeWhile is_digit (dropWhile is_space (drop (length label) s))
            in if ds = [] then None else Some ds)
      else None)"

fun regex_match :: "jsstring \<Rightarrow> jsstring \<Rightarrow> jsstring option" where
  \<comment> \<open>\<open>s.match(/label\s*(\d+)/)\<close>: the capture group of the leftmost match\<close>
  "regex_match label [] = match_here label []"
| "regex_match label (c # cs) =
     (case match_here label (c # cs) of
        Some ds \<Rightarrow> Some ds
      | None \<Rightarrow> regex_match label cs)"

definition digits_value :: "jsstring \<Rightarrow> int" where
  \<comment> \<open>the decimal value of a run of digits, which is what \<open>new BN(ds)\<close> holds\<close>
  "digits_value ds = foldl (\<lambda>acc d. acc * 10 + (uint d - 48)) 0 ds"

definition parseInt :: "jsstring \<Rightarrow> double" where
  \<comment> \<open>\<open>parseInt(ds)\<close> for a run of digits: the binary64 value nearest to the decimal
      value (infinity when it is out of range); the value is an integer and is written with
      exponent 0\<close>
  "parseInt ds =
     (case fl (digits_value ds) 1 of
        Finite m e \<Rightarrow> Finite (if 0 \<le> e then m * 2 ^ nat e else m div 2 ^ nat (- e)) 0
      | x \<Rightarrow> x)"

fun split_first :: "jsstring \<Rightarrow> jsstring \<Rightarrow> (jsstring \<times> jsstring) option" where
  \<comment> \<open>the text before and after the first occurrence of a non-empty separator\<close>
  "split_first sep [] = None"
| "split_first sep (c # cs) =
     (if prefix sep (c # cs) then Some ([], drop (length sep) (c # cs))
      else (case split_first sep cs of
              None \<Rightarrow> None
            | Some (before, rest) \<Rightarrow> Some (c # before, rest)))"

datatype jsval = Undefined | Str jsstring

definition split_1 :: "jsstring \<Rightarrow> jsstring \<Rightarrow> jsval" where
  \<comment> \<open>\<open>s.split(sep)[1]\<close> for a non-empty separator\<close>
  "split_1 s sep =
     (case split_first sep s of
        None \<Rightarrow> Undefined
      | Some (_, rest) \<Rightarrow>
          (case split_first sep rest of
             None \<Rightarrow> Str rest
           | Some (between, _) \<Rightarrow> Str between))"

definition trim :: "jsstring \<Rightarrow> jsstring" where
  "trim s = rev (dropWhile is_space (rev (dropWhile is_space s)))"

definition opt_trim :: "jsval \<Rightarrow> jsval" where
  \<comment> \<open>\<open>v?.trim()\<close>\<close>
  "opt_trim v = (case v of Undefined \<Rightarrow> Undefined | Str s \<Rightarrow> Str (trim s))"

definition truthy :: "jsval option \<Rightarrow> bool" where
  \<comment> \<open>a missing key, \<open>undefined\<close> and the empty string are falsy\<close>
  "truthy v = (case v of Some (Str s) \<Rightarrow> s \<noteq> [] | _ \<Rightarrow> False)"

fun join :: "jsstring \<Rightarrow> jsstring list \<Rightarrow> jsstring" where
  "join sep [] = []"
| "join sep [x] = x"
| "join sep (x # y # ys) = x @ sep @ join sep (y # ys)"


section \<open>instructions/public: parsing simulation logs\<close>

record TreasuryInfo =
  totalBalance :: BN
  totalFeesCollected :: BN
  lastWithdrawalTime :: BN
  withdrawalCount :: double
  donationCount :: double
  totalDonations :: BN

text \<open>\<open>Partial<TreasuryInfo>\<close>: every field may be missing.\<close>

record PartialTreasuryInfo =
  p_totalBalance :: "BN option"
  p_totalFeesCollected :: "BN option"
  p_lastWithdrawalTime :: "BN option"
  p_withdrawalCount :: "double option"
  p_donationCount :: "double option"
  p_totalDonations :: "BN option"

definition emptyTreasuryInfo :: PartialTreasuryInfo where
  "emptyTreasuryInfo =
     \<lparr> p_totalBalance = None, p_totalFeesCollected = None, p_lastWithdrawalTime = None,
       p_withdrawalCount = None, p_donationCount = None, p_totalDonations = None \<rparr>"

definition treasuryLogStep :: "PartialTreasuryInfo \<Rightarrow> jsstring \<Rightarrow> PartialTreasuryInfo" where
  \<comment> \<open>the body of the loop over the log lines\<close>
  "treasuryLogStep info0 log =
     (let info = info0;
          info = (if str_includes log (js ''Total Balance:'')
                  then (case regex_match (js ''Total Balance:'') log of
                          Some m \<Rightarrow> info\<lparr>p_totalBalance := Some (digits_value m)\<rparr>
                        | None \<Rightarrow> info)
                  else info);
          info = (if str_includes log (js ''Total Fees Collected:'')
                  then (case regex_match (js ''Total Fees Collected:'') log of
                          Some m \<Rightarrow> info\<lparr>p_totalFeesCollected := Some (digits_value m)\<rparr>
                        | None \<Rightarrow> info)
                  else info);
          info = (if str_includes log (js ''Last Withdrawal:'')
                  then (case regex_match (js ''Last Withdrawal:'') log of
                          Some m \<Rightarrow> info\<lparr>p_lastWithdrawalTime := Some (digits_value m)\<rparr>
                        | None \<Rightarrow> info)
                  else info);
          info = (if str_includes log (js ''Withdrawal Count:'')
                  then (case regex_match (js ''Withdrawal Count:'') log of
                          Some m \<Rightarrow> info\<lparr>p_withdrawalCount := Some (parseInt m)\<rparr>
                        | None \<Rightarrow> info)
                  else info);
          info = (if str_includes log (js ''Donation Count:'')
                  then (case regex_match (js ''Donation Count:'') log of
                          Some m \<Rightarrow> info\<lparr>p_donationCount := Some (parseInt m)\<rparr>
                        | None \<Rightarrow> info)
                  else info);
          info = (if str_includes log (js ''Total Donations:'')
                  then (case regex_match (js ''Total Donations:'') log of
                          Some m \<Rightarrow> info\<lparr>p_totalDonations := Some (digits_value m)\<rparr>
                        | None \<Rightarrow> info)
                  else info)
      in info)"

definition bn_or_zero :: "BN option \<Rightarrow> BN" where
  \<comment> \<open>\<open>info.f || new BN(0)\<close>: a BN object is truthy whatever its value\<close>
  "bn_or_zero v = (case v of None \<Rightarrow> 0 | Some b \<Rightarrow> b)"

definition number_or_zero :: "double option \<Rightarrow> double" where
  \<comment> \<open>\<open>info.f || 0\<close>: a missing field, the number 0 and NaN are falsy\<close>
  "number_or_zero v =
     (case v of None \<Rightarrow> Finite 0 0 | Some n \<Rightarrow> if dbl_falsy n then Finite 0 0 else n)"

definition parseTreasuryInfoFromLogs :: "jsstring list \<Rightarrow> TreasuryInfo" where
  "parseTreasuryInfoFromLogs logs =
     (let info = foldl treasuryLogStep emptyTreasuryInfo logs
      in \<lparr> totalBalance = bn_or_zero (p_totalBalance info),
           totalFeesCollected = bn_or_zero (p_totalFeesCollected info),
           lastWithdrawalTime = bn_or_zero (p_lastWithdrawalTime info),
           withdrawalCount = number_or_zero (p_withdrawalCount info),
           donationCount = number_or_zero (p_donationCount info),
           totalDonations = bn_or_zero (p_totalDonations info) \<rparr>)"

text \<open>\<open>Record<string, string>\<close> restricted to the four keys the loop can set.\<close>

record VersionInfo =
  name :: "jsval option"
  version :: "jsval option"
  buildDate :: "jsval option"
  rustVersion :: "jsval option"

definition emptyVersionInfo :: VersionInfo where
  "emptyVersionInfo = \<lparr> name = None, version = None, buildDate = None, rustVersion = None \<rparr>"

definition versionLogStep :: "VersionInfo \<Rightarrow> jsstring \<Rightarrow> VersionInfo" where
  "versionLogStep versionInfo0 log =
     (let versionInfo = versionInfo0;
          versionInfo = (if str_includes log (js ''Contract Name:'')
             then versionInfo\<lparr>name := Some (opt_trim (split_1 log (js ''Contract Name:'')))\<rparr>
             else versionInfo);
          versionInfo = (if str_includes log (js ''Contract Version:'')
             then versionInfo\<lparr>version := Some (opt_trim (split_1 log (js ''Contract Version:'')))\<rparr>
             else versionInfo);
          versionInfo = (if str_includes log (js ''Build Date:'')
             then versionInfo\<lparr>buildDate := Some (opt_trim (split_1 log (js ''Build Date:'')))\<rparr>
             else versionInfo);
          versionInfo = (if str_includes log (js ''Rust Version:'')
             then versionInfo\<lparr>rustVersion := Some (opt_trim (split_1 log (js ''Rust Version:'')))\<rparr>
             else versionInfo)
      in versionInfo)"

definition template_value :: "jsval option \<Rightarrow> jsstring" where
  \<comment> \<open>a value interpolated into a template literal\<close>
  "template_value v = (case v of Some (Str s) \<Rightarrow> s | _ \<Rightarrow> js ''undefined'')"

definition formatVersionInfo :: "VersionInfo \<Rightarrow> jsstring" where
  \<comment> \<open>the part of \<open>extractVersionFromLogs\<close> after its loop\<close>
  "formatVersionInfo versionInfo =
     (if name versionInfo = None \<and> version versionInfo = None \<and>
         buildDate versionInfo = None \<and> rustVersion versionInfo = None
      then js ''Version information not available in logs''
      else
        (let parts = [];
             parts = (if truthy (name versionInfo)
                      then parts @ [js ''Name: '' @ template_value (name versionInfo)] else parts);
             parts = (if truthy (version versionInfo)
                      then parts @ [js ''Version: '' @ template_value (version versionInfo)]
                      else parts);
             parts = (if truthy (buildDate versionInfo)
                      then parts @ [js ''Build: '' @ template_value (buildDate versionInfo)]
                      else parts);
             parts = (if truthy (rustVersion versionInfo)
                      then parts @ [js ''Rust: '' @ template_value (rustVersion versionInfo)]
                      else parts)
         in join (js '' | '') parts))"

definition extractVersionFromLogs :: "jsstring list \<Rightarrow> jsstring" where
  "extractVersionFromLogs logs = formatVersionInfo (foldl versionLogStep emptyVersionInfo logs)"

subsection \<open>Duplicate labels, as a rule of their own\<close>

text \<open>
  ``Last match wins'', written without reference to the loop: the value extracted from
  the last line of the list on which the extractor yields one.
\<close>

definition lastMatch :: "(jsstring \<Rightarrow> 'a option) \<Rightarrow> jsstring list \<Rightarrow> 'a option" where
  "lastMatch f logs = (case rev (List.map_filter f logs) of [] \<Rightarrow> None | v # _ \<Rightarrow> Some v)"

definition numberAfter :: "jsstring \<Rightarrow> jsstring \<Rightarrow> BN option" where
  \<comment> \<open>the amount a line carries for a label, if the line matches the label's pattern\<close>
  "numberAfter label log = map_option digits_value (regex_match label log)"

definition countAfter :: "jsstring \<Rightarrow> jsstring \<Rightarrow> double option" where
  \<comment> \<open>the count a line carries for a label, read as \<open>parseInt\<close> reads it\<close>
  "countAfter label log = map_option parseInt (regex_match label log)"

definition textAfter :: "jsstring \<Rightarrow> jsstring \<Rightarrow> jsval option" where
  \<comment> \<open>the text a line carries for a label, if the line contains the label\<close>
  "textAfter label log =
     (if str_includes log label then Some (opt_trim (split_1 log label)) else None)"


section \<open>utils: token order and the pool address\<close>

text \<open>
  \<open>tokenAMint.toBuffer() < tokenBMint.toBuffer()\<close> applies the relational operator
  to two objects. Neither has a primitive \<open>valueOf\<close>, so each operand is converted
  with \<open>Buffer.prototype.toString()\<close>, which decodes the bytes as UTF-8, and the two
  resulting strings are compared by UTF-16 code units.
\<close>

definition utf8_lead :: "nat \<Rightarrow> nat list \<times> (nat \<times> nat \<times> nat \<times> nat)" where
  \<comment> \<open>a byte read while no sequence is open: the code points emitted and the state
      (code point so far, continuation bytes still needed, bounds of the next byte)\<close>
  "utf8_lead v =
     (if v \<le> 0x7F then ([v], (0, 0, 0x80, 0xBF))
      else if 0xC2 \<le> v \<and> v \<le> 0xDF then ([], (v mod 32, 1, 0x80, 0xBF))
      else if 0xE0 \<le> v \<and> v \<le> 0xEF then
        ([], (v mod 16, 2, if v = 0xE0 then 0xA0 else 0x80, if v = 0xED then 0x9F else 0xBF))
      else if 0xF0 \<le> v \<and> v \<le> 0xF4 then
        ([], (v mod 8, 3, if v = 0xF0 then 0x90 else 0x80, if v = 0xF4 then 0x8F else 0xBF))
      else ([0xFFFD], (0, 0, 0x80, 0xBF)))"

fun utf8_decode :: "nat \<times> nat \<times> nat \<times> nat \<Rightarrow> Buffer \<Rightarrow> nat list" where
  \<comment> \<open>the UTF-8 decoder with replacement: an ill-formed sequence yields U+FFFD and the
      offending byte is read again as the start of a sequence\<close>
  "utf8_decode (cp, needed, lo, hi) [] = (if needed \<noteq> 0 then [0xFFFD] else [])"
| "utf8_decode (cp, needed, lo, hi) (b # bs) =
     (let v = unat b in
      if needed = 0 then
        (case utf8_lead v of (out, st) \<Rightarrow> out @ utf8_decode st bs)
      else if v < lo \<or> hi < v then
        (case utf8_lead v of (out, st) \<Rightarrow> 0xFFFD # out @ utf8_decode st bs)
      else
        (let cp' = cp * 64 + v mod 64 in
         if needed = 1 then cp' # utf8_decode (0, 0, 0x80, 0xBF) bs
         else utf8_decode (cp', needed - 1, 0x80, 0xBF) bs))"

definition utf16_units :: "nat \<Rightarrow> jsstring" where
  "utf16_units cp =
     (if cp < 0x10000 then [of_nat cp]
      else [of_nat (0xD800 + (cp - 0x10000) div 1024), of_nat (0xDC00 + (cp - 0x10000) mod 1024)])"

definition Buffer_toString :: "Buffer \<Rightarrow> jsstring" where
  "Buffer_toString buf = concat (map utf16_units (utf8_decode (0, 0, 0x80, 0xBF) buf))"

fun string_lt :: "jsstring \<Rightarrow> jsstring \<Rightarrow> bool" where
  \<comment> \<open>\<open><\<close> on two strings: code unit by code unit, a proper prefix is smaller\<close>
  "string_lt [] [] = False"
| "string_lt [] (y # ys) = True"
| "string_lt (x # xs) [] = False"
| "string_lt (x # xs) (y # ys) = (if x = y then string_lt xs ys else x < y)"

definition normalizeTokenOrder :: "PublicKey \<Rightarrow> PublicKey \<Rightarrow> PublicKey \<times> PublicKey" where
  "normalizeTokenOrder tokenAMint' tokenBMint' =
     (if string_lt (Buffer_toString tokenAMint') (Buffer_toString tokenBMint')
      then (tokenAMint', tokenBMint')
      else (tokenBMint', tokenAMint'))"

definition poolStateSeeds :: "PublicKey \<Rightarrow> PublicKey \<Rightarrow> BN \<Rightarrow> BN \<Rightarrow> error + Buffer list" where
  \<comment> \<open>the seed array that \<open>derivePoolStatePDA\<close> hands to the derivation\<close>
  "poolStateSeeds tokenAMint' tokenBMint' ratioA' ratioB' =
     (case normalizeTokenOrder tokenAMint' tokenBMint' of (mintA, mintB) \<Rightarrow>
        bindE (toArrayLike_le ratioA' 8) (\<lambda>ratioABytes.
        bindE (toArrayLike_le ratioB' 8) (\<lambda>ratioBBytes.
        Inr [utf8_units SEEDS_POOL_STATE_V2, mintA, mintB, ratioABytes, ratioBBytes])))"

definition derivePoolStatePDA ::
  "Env \<Rightarrow> PublicKey \<Rightarrow> PublicKey \<Rightarrow> BN \<Rightarrow> BN \<Rightarrow> error + (PublicKey \<times> nat)" where
  "derivePoolStatePDA env tokenAMint' tokenBMint' ratioA' ratioB' =
     bindE (poolStateSeeds tokenAMint' tokenBMint' ratioA' ratioB') (\<lambda>seeds.
       findProgramAddressSync env seeds (PROGRAM_ID env))"

section \<open>utils: display conversion\<close>

definition Math_pow10 :: "(nat \<Rightarrow> double) \<Rightarrow> nat \<Rightarrow> double" where
  \<comment> \<open>\<open>Math.pow(10, decimals)\<close> for a natural number of decimals. The powers up to
      \<open>10^22\<close> are binary64 values and are returned as they are; above, the result is
      an approximation that the language leaves to the engine: the parameter
      \<open>approx\<close>\<close>
  "Math_pow10 approx decimals = (if decimals \<le> 22 then fl (10 ^ decimals) 1 else approx decimals)"

definition toBasisPoints :: "(nat \<Rightarrow> double) \<Rightarrow> double \<Rightarrow> nat \<Rightarrow> error + BN" where
  "toBasisPoints approx amount' decimals =
     (let multiplier = Math_pow10 approx decimals
      in BN_of_number (Math_floor (dbl_mul amount' multiplier)))"

definition fromBasisPoints :: "(nat \<Rightarrow> double) \<Rightarrow> BN \<Rightarrow> nat \<Rightarrow> error + double" where
  "fromBasisPoints approx basisPoints decimals =
     (let divisor = Math_pow10 approx decimals
      in bindE (BN_toNumber basisPoints) (\<lambda>n. Inr (dbl_div n divisor)))"

section \<open>Properties of binary64 rounding\<close>

text \<open>
  An integer below \<open>2^53\<close> in magnitude is a binary64 value: rounding leaves it as it
  is, whatever power of two scales numerator and denominator.
\<close>

declare bitlen.simps [simp del]

lemma bitlen_0: "bitlen 0 = 0"
  by (simp add: bitlen.simps)

lemma bitlen_pos: "0 < n \<Longrightarrow> bitlen n = Suc (bitlen (n div 2))"
  by (subst bitlen.simps) simp

lemma bitlen_upper: "n < 2 ^ bitlen n"
proof (induction n rule: bitlen.induct)
  case (1 n)
  show ?case
  proof (cases "n = 0")
    case True
    then show ?thesis by (simp add: bitlen_0)
  next
    case False
    then have "n div 2 < 2 ^ bitlen (n div 2)" by (rule 1)
    then have "n < 2 * 2 ^ bitlen (n div 2)" by linarith
    with False show ?thesis by (simp add: bitlen_pos)
  qed
qed

lemma bitlen_lower: "0 < n \<Longrightarrow> 2 ^ bitlen n \<le> 2 * n"
proof (induction n rule: bitlen.induct)
  case (1 n)
  show ?case
  proof (cases "n div 2 = 0")
    case True
    with 1(2) have "n = 1" by linarith
    then show ?thesis by (simp add: bitlen_pos bitlen_0)
  next
    case False
    then have "2 ^ bitlen (n div 2) \<le> 2 * (n div 2)"
      using 1 by simp
    also have "\<dots> \<le> n" by simp
    finally show ?thesis
      using 1(2) by (simp add: bitlen_pos)
  qed
qed

lemma bitlen_double: "0 < n \<Longrightarrow> bitlen (2 * n) = Suc (bitlen n)"
  by (simp add: bitlen_pos)

lemma bitlen_shift: "0 < n \<Longrightarrow> bitlen (n * 2 ^ j) = bitlen n + j"
proof (induction j)
  case 0
  show ?case by simp
next
  case (Suc j)
  have "bitlen (n * 2 ^ Suc j) = bitlen (2 * (n * 2 ^ j))"
    by (simp add: mult.commute mult.left_commute)
  also have "\<dots> = Suc (bitlen (n * 2 ^ j))"
    using Suc.prems by (intro bitlen_double) simp
  finally show ?case
    using Suc by simp
qed

lemma bitlen_pow2: "bitlen (2 ^ j) = Suc j"
  using bitlen_shift [of 1 j] by (simp add: bitlen_pos bitlen_0)

lemma bitlen_le: "n < 2 ^ k \<Longrightarrow> bitlen n \<le> k"
proof (cases "n = 0")
  case True
  then show ?thesis by (simp add: bitlen_0)
next
  case False
  assume "n < 2 ^ k"
  with False bitlen_lower [of n] have "(2::nat) ^ bitlen n < 2 ^ Suc k"
    by simp
  then have "bitlen n < Suc k"
    by (simp only: power_strict_increasing_iff [of 2] one_less_numeral_iff semiring_norm)
  then show ?thesis by simp
qed

lemma bitlen_ge1: "0 < n \<Longrightarrow> 1 \<le> bitlen n"
  by (simp add: bitlen_pos)

lemma round_half_even_exact: "0 < d \<Longrightarrow> round_half_even (x * d) d = x"
  by (simp add: round_half_even_def)

lemma ilog2_frac_shift:
  assumes "0 < a"
  shows "ilog2_frac (a * 2 ^ j) (2 ^ j) = int (bitlen a) - 1"
proof -
  have b1: "1 \<le> bitlen a" using assms by (rule bitlen_ge1)
  have k: "int (bitlen (a * 2 ^ j)) - int (bitlen ((2::nat) ^ j)) = int (bitlen a) - 1"
    using assms by (simp add: bitlen_shift bitlen_pow2)
  have nk: "nat (int (bitlen a) - 1) = bitlen a - 1" "nat (- (int (bitlen a) - 1)) = 0"
    using b1 by simp_all
  have "2 * 2 ^ (bitlen a - 1) = (2::nat) ^ bitlen a"
    using b1 by (metis Suc_diff_1 less_eq_Suc_le power_Suc zero_less_one not_less_eq_eq
        One_nat_def Suc_le_lessD)
  with bitlen_lower [OF assms] have "2 ^ (bitlen a - 1) \<le> a"
    by simp
  then have "2 ^ j * 2 ^ (bitlen a - 1) \<le> a * 2 ^ j"
    by (simp add: mult.commute)
  then show ?thesis
    unfolding ilog2_frac_def k Let_def nk by simp
qed

lemma fl_pos_exact:
  assumes "0 < a" and "a < 2 ^ 53"
  shows "fl_pos (a * 2 ^ j) (2 ^ j)
           = Finite (int (a * 2 ^ (53 - bitlen a))) (int (bitlen a) - 53)"
proof -
  have b1: "1 \<le> bitlen a" using assms(1) by (rule bitlen_ge1)
  have b53: "bitlen a \<le> 53" using assms(2) by (rule bitlen_le)
  have e: "max (ilog2_frac (a * 2 ^ j) (2 ^ j) - 52) (- 1074) = int (bitlen a) - 53"
    using b1 by (simp add: ilog2_frac_shift [OF assms(1)])
  have ne: "nat (- (int (bitlen a) - 53)) = 53 - bitlen a" "nat (int (bitlen a) - 53) = 0"
    using b53 by simp_all
  have m: "round_half_even (a * 2 ^ j * 2 ^ (53 - bitlen a)) (2 ^ j * 2 ^ 0)
             = a * 2 ^ (53 - bitlen a)"
  proof -
    have eq: "a * 2 ^ j * 2 ^ (53 - bitlen a) = a * 2 ^ (53 - bitlen a) * 2 ^ j"
      by (simp add: mult.assoc mult.commute)
    have r: "round_half_even (a * 2 ^ (53 - bitlen a) * 2 ^ j) (2 ^ j)
               = a * 2 ^ (53 - bitlen a)"
      by (rule round_half_even_exact) simp
    show ?thesis
      by (simp only: eq power_0 mult_1_right r)
  qed
  have "a * 2 ^ (53 - bitlen a) < 2 ^ bitlen a * 2 ^ (53 - bitlen a)"
    using bitlen_upper [of a] by simp
  also have "\<dots> = 2 ^ 53"
    using b53 by (simp add: power_add [symmetric])
  finally have lt: "a * 2 ^ (53 - bitlen a) < 2 ^ 53" .
  have "nat (1024 - (int (bitlen a) - 53)) = 1024 + (53 - bitlen a)"
    using b53 by simp
  then have "(2::nat) ^ 53 \<le> 2 ^ nat (1024 - (int (bitlen a) - 53))"
    by (simp only: power_increasing_iff [of 2] one_less_numeral_iff semiring_norm)
  with lt have ov: "\<not> 2 ^ nat (1024 - (int (bitlen a) - 53)) \<le> a * 2 ^ (53 - bitlen a)"
    by linarith
  show ?thesis
    unfolding fl_pos_def e Let_def ne m using ov by simp
qed

lemma fl_int_exact:
  assumes "b \<noteq> 0" and "\<bar>b\<bar> < 2 ^ 53"
  shows "fl (b * 2 ^ j) (2 ^ j)
           = Finite (b * 2 ^ (53 - bitlen (nat \<bar>b\<bar>))) (int (bitlen (nat \<bar>b\<bar>)) - 53)"
proof (cases "0 < b")
  case True
  then have a: "0 < nat b" "nat b < 2 ^ 53"
    using assms(2) by (simp_all add: nat_less_iff)
  have n: "nat (b * 2 ^ j) = nat b * 2 ^ j"
    using True by (simp add: nat_mult_distrib nat_power_eq)
  have "fl (b * 2 ^ j) (2 ^ j) = fl_pos (nat b * 2 ^ j) (2 ^ j)"
    using True by (simp add: fl_def n)
  also have "\<dots> = Finite (int (nat b * 2 ^ (53 - bitlen (nat b)))) (int (bitlen (nat b)) - 53)"
    by (rule fl_pos_exact [OF a])
  finally show ?thesis
    using True by simp
next
  case False
  with assms(1) have neg: "b < 0" by simp
  then have a: "0 < nat (- b)" "nat (- b) < 2 ^ 53"
    using assms(2) by (simp_all add: nat_less_iff)
  have n: "nat (- (b * 2 ^ j)) = nat (- b) * 2 ^ j"
    using neg by (simp add: nat_mult_distrib nat_power_eq flip: mult_minus_left)
  have "b * 2 ^ j < 0"
    using neg by (simp add: mult_less_0_iff)
  with neg have "fl (b * 2 ^ j) (2 ^ j) = dbl_neg (fl_pos (nat (- b) * 2 ^ j) (2 ^ j))"
    by (simp add: fl_def n)
  also have "\<dots> = dbl_neg (Finite (int (nat (- b) * 2 ^ (53 - bitlen (nat (- b)))))
                        (int (bitlen (nat (- b))) - 53))"
    by (simp only: fl_pos_exact [OF a])
  finally show ?thesis
    using neg by (simp add: dbl_neg_def)
qed

lemma Math_floor_exact:
  assumes "bl \<le> 53"
  shows "Math_floor (Finite (b * 2 ^ (53 - bl)) (int bl - 53)) = Finite b 0"
proof (cases "bl = 53")
  case True
  then show ?thesis by (simp add: Math_floor_def)
next
  case False
  with assms have "\<not> 0 \<le> int bl - 53" "nat (- (int bl - 53)) = 53 - bl"
    by simp_all
  then show ?thesis
    by (simp add: Math_floor_def)
qed

lemma tolerance_of_int:
  assumes "\<bar>(100 - tol) * 100\<bar> < 2 ^ 53"
  shows "Math_floor (dbl_mul (dbl_sub (Finite 100 0) (Finite tol 0)) (Finite 100 0))
           = Finite ((100 - tol) * 100) 0"
proof (cases "tol = 100")
  case True
  then show ?thesis
    by (simp add: fl_def Math_floor_def)
next
  case False
  define a where "a = 100 - tol"
  define bl1 where "bl1 = bitlen (nat \<bar>a\<bar>)"
  define bl2 where "bl2 = bitlen (nat \<bar>a * 100\<bar>)"
  have a0: "a \<noteq> 0" using False by (simp add: a_def)
  have b53: "\<bar>a * 100\<bar> < 2 ^ 53" using assms by (simp add: a_def)
  then have a53: "\<bar>a\<bar> < 2 ^ 53" by (simp add: abs_mult)
  have l1: "bl1 \<le> 53"
    unfolding bl1_def using a53 by (intro bitlen_le) (simp add: nat_less_iff)
  have l2: "bl2 \<le> 53"
    unfolding bl2_def using b53 by (intro bitlen_le) (simp add: nat_less_iff)
  have sub: "dbl_sub (Finite 100 0) (Finite tol 0) = Finite (a * 2 ^ (53 - bl1)) (int bl1 - 53)"
    using fl_int_exact [OF a0 a53, of 0] by (simp add: a_def bl1_def)
  have e1: "nat (int bl1 - 53 + 0) = 0" "nat (- (int bl1 - 53 + 0)) = 53 - bl1"
    using l1 by simp_all
  have "dbl_mul (Finite (a * 2 ^ (53 - bl1)) (int bl1 - 53)) (Finite 100 0)
          = fl (a * 100 * 2 ^ (53 - bl1)) (2 ^ (53 - bl1))"
    unfolding dbl_mul.simps e1 by (simp add: ac_simps)
  also have "\<dots> = Finite (a * 100 * 2 ^ (53 - bl2)) (int bl2 - 53)"
    unfolding bl2_def using a0 b53 by (intro fl_int_exact) simp_all
  finally have mul: "dbl_mul (dbl_sub (Finite 100 0) (Finite tol 0)) (Finite 100 0)
          = Finite (a * 100 * 2 ^ (53 - bl2)) (int bl2 - 53)"
    by (simp only: sub)
  show ?thesis
    unfolding mul by (simp only: Math_floor_exact [OF l2] a_def)
qed

lemma applySlippage_of_int:
  assumes "\<bar>(100 - tol) * 100\<bar> < 2 ^ 53"
  shows "applySlippage expected (Finite tol 0)
           = bn_div (expected * ((100 - tol) * 100)) 10000"
  unfolding applySlippage_def Let_def tolerance_of_int [OF assms]
  using assms by (simp add: BN_of_number_def bindE_def bn_mul_def)

lemmas fl_eval = fl_def fl_pos_def ilog2_frac_def round_half_even_def bitlen.simps Let_def


section \<open>Properties of the ratio arithmetic\<close>

lemma bn_div_nonneg: "0 \<le> a \<Longrightarrow> 0 < b \<Longrightarrow> bn_div a b = Inr (a div b)"
  by (cases "a = 0") (simp_all add: bn_div_def)

lemma bn_div_zero: "bn_div a 0 = Inl AssertionFailed"
  by (simp add: bn_div_def)

lemma applySlippage_nonneg:
  assumes "0 \<le> expected" and "tol \<le> 100" and "\<bar>(100 - tol) * 100\<bar> < 2 ^ 53"
  shows "applySlippage expected (Finite tol 0)
           = Inr (expected * (10000 - tol * 100) div 10000)"
proof -
  have "0 \<le> expected * ((100 - tol) * 100)"
    using assms(1,2) by simp
  then have "bn_div (expected * ((100 - tol) * 100)) 10000
               = Inr (expected * ((100 - tol) * 100) div 10000)"
    by (rule bn_div_nonneg) simp
  moreover have "(100 - tol) * 100 = 10000 - tol * 100"
    by (simp add: algebra_simps)
  ultimately show ?thesis
    by (simp add: applySlippage_of_int [OF assms(3)])
qed


text \<open>
  NaN compares neither below 0 nor above 50, so the validator does not report it.
\<close>

lemma validateSwapParams_NaN:
  assumes "slippageTolerance params = Some NaN"
  shows "js ''Slippage tolerance must be between 0 and 50 percent''
           \<notin> set (errors (validateSwapParams params))"
  using assms by (simp add: validateSwapParams_def Let_def js_def)




text \<open>
  C7. A zero divisor makes the ratio functions raise: \<open>calculateSwapOutput\<close> and
  \<open>calculateRequiredLiquidity\<close> with a zero ratio of the dividing side fail for every
  amount. The two bootstrap branches return instead: \<open>estimateLPTokensFromDeposit\<close>
  returns the deposit when the LP supply or the pool balance is zero (so
  \<open>estimateLPTokensFromDeposit(500, 0, 0) = 500\<close>) and
  \<open>\<lfloor>deposit * lpSupply / poolBalance\<rfloor>\<close> otherwise;
  \<open>estimateTokensFromWithdraw\<close> returns 0 when the LP supply is zero and
  \<open>\<lfloor>lpAmount * poolBalance / lpSupply\<rfloor>\<close> otherwise. Amounts are non-negative.
\<close>

theorem ratio_division_errors:
  "calculateSwapOutput amountIn' 0 ratioOut = Inl AssertionFailed
   \<and> calculateRequiredLiquidity amount' 0 other = Inl AssertionFailed
   \<and> (lpSupply = 0 \<or> poolBalance = 0 \<longrightarrow>
        estimateLPTokensFromDeposit deposit poolBalance lpSupply = Inr deposit)
   \<and> estimateLPTokensFromDeposit 500 0 0 = Inr 500
   \<and> (0 \<le> deposit \<and> 0 < lpSupply \<and> 0 < poolBalance \<longrightarrow>
        estimateLPTokensFromDeposit deposit poolBalance lpSupply
          = Inr (deposit * lpSupply div poolBalance))
   \<and> (lpSupply = 0 \<longrightarrow> estimateTokensFromWithdraw lpAmount poolBalance lpSupply = Inr 0)
   \<and> (0 \<le> lpAmount \<and> 0 \<le> poolBalance \<and> 0 < lpSupply \<longrightarrow>
        estimateTokensFromWithdraw lpAmount poolBalance lpSupply
          = Inr (lpAmount * poolBalance div lpSupply))"
proof -
  have dep: "estimateLPTokensFromDeposit deposit poolBalance lpSupply
          = Inr (deposit * lpSupply div poolBalance)"
    if "0 \<le> deposit" "0 < lpSupply" "0 < poolBalance"
  proof -
    have "0 \<le> deposit * lpSupply" using that by simp
    then show ?thesis
      using that by (simp add: estimateLPTokensFromDeposit_def bn_mul_def bn_div_nonneg)
  qed
  have wd: "estimateTokensFromWithdraw lpAmount poolBalance lpSupply
          = Inr (lpAmount * poolBalance div lpSupply)"
    if "0 \<le> lpAmount" "0 \<le> poolBalance" "0 < lpSupply"
  proof -
    have "0 \<le> lpAmount * poolBalance" using that by simp
    then show ?thesis
      using that by (simp add: estimateTokensFromWithdraw_def bn_mul_def bn_div_nonneg)
  qed
  have z: "calculateSwapOutput amountIn' 0 ratioOut = Inl AssertionFailed"
      "calculateRequiredLiquidity amount' 0 other = Inl AssertionFailed"
    by (simp_all add: calculateSwapOutput_def calculateRequiredLiquidity_def bn_div_zero)
  have b: "estimateLPTokensFromDeposit deposit poolBalance lpSupply = Inr deposit"
    if "lpSupply = 0 \<or> poolBalance = 0"
    using that by (auto simp add: estimateLPTokensFromDeposit_def)
  have b5: "estimateLPTokensFromDeposit 500 0 0 = Inr 500"
    by (simp add: estimateLPTokensFromDeposit_def)
  have w0: "estimateTokensFromWithdraw lpAmount poolBalance lpSupply = Inr 0" if "lpSupply = 0"
    using that by (simp add: estimateTokensFromWithdraw_def)
  show ?thesis
    using dep wd z b b5 w0 by blast
qed

theorem ratio_division_errors_witness:
  "calculateSwapOutput 100 0 160 = Inl AssertionFailed
   \<and> estimateLPTokensFromDeposit 500 0 7 = Inr 500
   \<and> estimateLPTokensFromDeposit 500 3 0 = Inr 500
   \<and> estimateLPTokensFromDeposit 10 3 2 = Inr 6
   \<and> estimateTokensFromWithdraw 10 3 0 = Inr 0
   \<and> estimateTokensFromWithdraw 10 3 4 = Inr 7"
  using
    ratio_division_errors [where amountIn' = 100 and ratioOut = 160 and lpSupply = 7
      and poolBalance = 0 and deposit = 500]
    ratio_division_errors [where lpSupply = 0 and poolBalance = 3 and deposit = 500
      and lpAmount = 10]
    ratio_division_errors [where lpSupply = 2 and poolBalance = 3 and deposit = 10]
    ratio_division_errors [where lpSupply = 4 and poolBalance = 3 and lpAmount = 10]
  by simp

section \<open>Properties of the instruction builders\<close>

lemma toArrayLike_le_u64:
  "0 \<le> x \<Longrightarrow> x < 2 ^ 64 \<Longrightarrow> toArrayLike_le x 8 = Inr (le_bytes 8 (nat x))"
  by (simp add: toArrayLike_le_def nat_less_iff)

text \<open>
  C9. \<open>createSwapInstruction\<close> treats a slippage tolerance of 0 like an omitted one:
  the \<open>minAmountOut\<close> field of the payload is \<open>applySlippage(expectedAmountOut, 1)\<close>,
  the 1 percent default, and not \<open>expectedAmountOut\<close> itself, which is what a
  tolerance of 0 would give and which is strictly larger for a positive amount.
\<close>


text \<open>
  C9. \<open>createSwapInstruction\<close> treats a slippage tolerance of 0 like an omitted one:
  the \<open>minAmountOut\<close> field of the payload is \<open>applySlippage(expectedAmountOut, 1)\<close>,
  the 1 percent default, and not \<open>expectedAmountOut\<close> itself, which is what a
  tolerance of 0 would give and which is strictly larger for a positive amount.
\<close>

theorem swap_zero_slippage_default:
  assumes "slippageTolerance params = None \<or> slippageTolerance params = Some (Finite 0 e)"
    and "deriveSystemStatePDA env = Inr (s, sb)"
    and "deriveMainTreasuryPDA env = Inr (t, tb)"
    and "0 \<le> amountIn params" and "amountIn params < 2 ^ 64"
    and "0 \<le> expectedAmountOut params" and "expectedAmountOut params < 2 ^ 64"
  shows "\<exists>ix minAmountOut.
           createSwapInstruction env params = Inr ix
           \<and> applySlippage (expectedAmountOut params) (Finite 1 0) = Inr minAmountOut
           \<and> minAmountOut = expectedAmountOut params * 9900 div 10000
           \<and> data ix = [PoolInstruction_Swap] @ inputTokenMint params
                        @ le_bytes 8 (nat (amountIn params)) @ le_bytes 8 (nat minAmountOut)
           \<and> applySlippage (expectedAmountOut params) (Finite 0 0)
                = Inr (expectedAmountOut params)
           \<and> (0 < expectedAmountOut params \<longrightarrow> minAmountOut < expectedAmountOut params)"
proof -
  let ?e = "expectedAmountOut params"
  define m where "m = ?e * 9900 div 10000"
  have as: "applySlippage ?e (Finite 1 0) = Inr m"
    using applySlippage_nonneg [of ?e 1] assms(6) by (simp add: m_def)
  have as0: "applySlippage ?e (Finite 0 0) = Inr ?e"
    using applySlippage_nonneg [of ?e 0] assms(6) by simp
  have m0: "0 \<le> m" using assms(6) by (simp add: m_def)
  have mle: "m \<le> ?e" using assms(6) by (simp add: m_def)
  then have m64: "m < 2 ^ 64" using assms(7) by simp
  have mlt: "m < ?e" if "0 < ?e" using that by (simp add: m_def)
  have tol: "(case slippageTolerance params of None \<Rightarrow> Finite 1 0
               | Some t \<Rightarrow> if dbl_falsy t then Finite 1 0 else t) = Finite 1 0"
    using assms(1) by (auto simp add: dbl_falsy_def)
  have "\<exists>ix. createSwapInstruction env params = Inr ix \<and>
     data ix = [PoolInstruction_Swap] @ inputTokenMint params
                        @ le_bytes 8 (nat (amountIn params)) @ le_bytes 8 (nat m)"
    unfolding createSwapInstruction_def
    by (simp only: assms(2,3) bindE_def tol as Let_def sum.case prod.case
        toArrayLike_le_u64 [OF assms(4,5)] toArrayLike_le_u64 [OF m0 m64]) simp
  then show ?thesis
    using as as0 mlt m_def by blast
qed

theorem swap_zero_slippage_default_witness:
  "\<exists>ix. createSwapInstruction
           \<lparr> PROGRAM_ID = [7], SystemProgram_programId = [0], TOKEN_PROGRAM_ID = [6],
             findProgramAddressSync = (\<lambda>seeds pid. Inr (concat seeds, 255)) \<rparr>
           \<lparr> poolStatePDA = [1], amountIn = 5000, expectedAmountOut = 1000,
             inputTokenMint = [2], userAuthority = [3], userInputAccount = [4],
             userOutputAccount = [5], slippageTolerance = Some (Finite 0 0) \<rparr> = Inr ix
        \<and> data ix = [9, 2] @ le_bytes 8 5000 @ le_bytes 8 990"
  using swap_zero_slippage_default [where
      env = "\<lparr> PROGRAM_ID = [7], SystemProgram_programId = [0], TOKEN_PROGRAM_ID = [6],
             findProgramAddressSync = (\<lambda>seeds pid. Inr (concat seeds, 255)) \<rparr>"
      and params = "\<lparr> poolStatePDA = [1], amountIn = 5000, expectedAmountOut = 1000,
             inputTokenMint = [2], userAuthority = [3], userInputAccount = [4],
             userOutputAccount = [5], slippageTolerance = Some (Finite 0 0) \<rparr>"
      and s = "utf8_units SEEDS_SYSTEM_STATE" and sb = 255
      and t = "utf8_units SEEDS_MAIN_TREASURY" and tb = 255 and e = 0]
  by (auto simp add: deriveSystemStatePDA_def deriveMainTreasuryPDA_def PoolInstruction_Swap_def)

lemma remdups_map_inj_on:
  "distinct xs \<Longrightarrow> inj_on f (set xs) \<Longrightarrow> remdups (map f xs) = map f xs"
  by (simp add: distinct_map)


lemma le_bytes_numeral:
  "le_bytes (numeral k) n = of_nat (n mod 256) # le_bytes (pred_numeral k) (n div 256)"
proof -
  have "le_bytes (Suc (pred_numeral k)) n
          = of_nat (n mod 256) # le_bytes (pred_numeral k) (n div 256)"
    by (rule le_bytes.simps)
  then show ?thesis
    by (simp only: numeral_eq_Suc [of k, symmetric])
qed

lemma writeUInt32LE_20: "writeUInt32LE 20 = Inr [20, 0, 0, 0]"
  by (simp add: writeUInt32LE_def le_bytes_numeral)

lemma consolidate_encodes_first_20:
  assumes "20 < length pools" and "deriveSystemStatePDA env = Inr (s, sb)"
    and "deriveMainTreasuryPDA env = Inr (t, tb)"
  shows "createConsolidatePoolFeesInstruction env pools
        = Inr \<lparr> keys =
                 [ \<lparr> pubkey = s, isSigner = False, isWritable = False \<rparr>,
                   \<lparr> pubkey = t, isSigner = False, isWritable = True \<rparr>,
                   \<lparr> pubkey = SystemProgram_programId env, isSigner = False,
                     isWritable = False \<rparr> ]
                 @ map (\<lambda>p. \<lparr> pubkey = p, isSigner = False, isWritable = True \<rparr>)
                       (take 20 pools),
               programId = PROGRAM_ID env,
               data = [15, 20, 0, 0, 0] \<rparr>"
proof -
  have l: "min (length pools) 20 = 20" using assms(1) by simp
  show ?thesis
    unfolding createConsolidatePoolFeesInstruction_def
    by (simp add: assms(2,3) bindE_def Let_def l writeUInt32LE_20
          PoolInstruction_ConsolidatePoolFees_def)
qed

lemma validateConsolidation_too_many:
  assumes "20 < length pools"
  shows "isValid (validateConsolidationParams encode pools) = False"
    and "js ''Maximum 20 pools per consolidation transaction''
            \<in> set (errors (validateConsolidationParams encode pools))"
  using assms by (simp_all add: validateConsolidationParams_def Let_def)

lemma validateConsolidation_ok:
  assumes "1 \<le> length pools" and "length pools \<le> 20" and "distinct pools"
    and "inj_on encode (set pools)"
  shows "validateConsolidationParams encode pools = \<lparr> isValid = True, errors = [] \<rparr>"
proof -
  have "length (remdups (map encode pools)) = length pools"
    using assms(3,4) by (simp add: remdups_map_inj_on)
  moreover have "pools \<noteq> []"
    using assms(1) by auto
  ultimately show ?thesis
    using assms(2) by (simp add: validateConsolidationParams_def Let_def)
qed

text \<open>
  C4. For a list of more than 20 pool addresses, \<open>createConsolidatePoolFeesInstruction\<close>
  encodes opcode 15 and the count 20 in four little-endian bytes, and appends exactly the
  first 20 addresses after the three fixed account references;
  \<open>validateConsolidationParams\<close> rejects the same list with the error about the
  20-pool maximum; a list of 1 to 20 addresses without duplicates is valid.
\<close>

theorem consolidation_truncates_and_validates:
  "(20 < length pools \<and> deriveSystemStatePDA env = Inr (s, sb)
      \<and> deriveMainTreasuryPDA env = Inr (t, tb) \<longrightarrow>
      createConsolidatePoolFeesInstruction env pools
        = Inr \<lparr> keys =
                 [ \<lparr> pubkey = s, isSigner = False, isWritable = False \<rparr>,
                   \<lparr> pubkey = t, isSigner = False, isWritable = True \<rparr>,
                   \<lparr> pubkey = SystemProgram_programId env, isSigner = False,
                     isWritable = False \<rparr> ]
                 @ map (\<lambda>p. \<lparr> pubkey = p, isSigner = False, isWritable = True \<rparr>)
                       (take 20 pools),
               programId = PROGRAM_ID env,
               data = [15, 20, 0, 0, 0] \<rparr>
      \<and> length (take 20 pools) = 20)
   \<and> (20 < length pools \<longrightarrow>
        isValid (validateConsolidationParams encode pools) = False
        \<and> js ''Maximum 20 pools per consolidation transaction''
            \<in> set (errors (validateConsolidationParams encode pools)))
   \<and> (1 \<le> length pools \<and> length pools \<le> 20 \<and> distinct pools
        \<and> inj_on encode (set pools) \<longrightarrow>
        validateConsolidationParams encode pools = \<lparr> isValid = True, errors = [] \<rparr>)"
proof (intro conjI impI)
  assume h: "20 < length pools \<and> deriveSystemStatePDA env = Inr (s, sb)
      \<and> deriveMainTreasuryPDA env = Inr (t, tb)"
  then show "createConsolidatePoolFeesInstruction env pools
        = Inr \<lparr> keys =
                 [ \<lparr> pubkey = s, isSigner = False, isWritable = False \<rparr>,
                   \<lparr> pubkey = t, isSigner = False, isWritable = True \<rparr>,
                   \<lparr> pubkey = SystemProgram_programId env, isSigner = False,
                     isWritable = False \<rparr> ]
                 @ map (\<lambda>p. \<lparr> pubkey = p, isSigner = False, isWritable = True \<rparr>)
                       (take 20 pools),
               programId = PROGRAM_ID env,
               data = [15, 20, 0, 0, 0] \<rparr>"
    by (simp only: consolidate_encodes_first_20)
  from h show "length (take 20 pools) = 20" by simp
next
  assume "20 < length pools"
  then show "isValid (validateConsolidationParams encode pools) = False"
    and "js ''Maximum 20 pools per consolidation transaction''
            \<in> set (errors (validateConsolidationParams encode pools))"
    by (rule validateConsolidation_too_many)+
next
  assume "1 \<le> length pools \<and> length pools \<le> 20 \<and> distinct pools
        \<and> inj_on encode (set pools)"
  then show "validateConsolidationParams encode pools = \<lparr> isValid = True, errors = [] \<rparr>"
    by (simp only: validateConsolidation_ok)
qed

theorem consolidation_truncates_and_validates_witness:
  "(\<exists>ix. createConsolidatePoolFeesInstruction
           \<lparr> PROGRAM_ID = [7], SystemProgram_programId = [0], TOKEN_PROGRAM_ID = [6],
             findProgramAddressSync = (\<lambda>seeds pid. Inr (concat seeds, 255)) \<rparr>
           (map (\<lambda>i. [of_nat i]) [1..<26]) = Inr ix
         \<and> data ix = [15, 20, 0, 0, 0]
         \<and> map pubkey (drop 3 (keys ix)) = map (\<lambda>i. [of_nat i]) [1..<21])
   \<and> isValid (validateConsolidationParams (map ucast) (map (\<lambda>i. [of_nat i]) [1..<26])) = False
   \<and> validateConsolidationParams (map ucast) [[1], [2], [3]] = \<lparr> isValid = True, errors = [] \<rparr>"
  using consolidation_truncates_and_validates [where
      env = "\<lparr> PROGRAM_ID = [7], SystemProgram_programId = [0], TOKEN_PROGRAM_ID = [6],
             findProgramAddressSync = (\<lambda>seeds pid. Inr (concat seeds, 255)) \<rparr>"
      and pools = "map (\<lambda>i. [of_nat i]) [1..<26]"
      and encode = "map ucast :: PublicKey \<Rightarrow> jsstring"
      and s = "utf8_units SEEDS_SYSTEM_STATE" and sb = 255
      and t = "utf8_units SEEDS_MAIN_TREASURY" and tb = 255]
    consolidation_truncates_and_validates [where pools = "[[1], [2], [3]]"
      and encode = "map ucast :: PublicKey \<Rightarrow> jsstring"]
  by (simp add: deriveSystemStatePDA_def deriveMainTreasuryPDA_def upt_rec)

section \<open>Properties of the validators\<close>

text \<open>
  C6. \<open>validatePoolCreationParams\<close> accumulates its violations: with a non-positive
  ratio A, identical tokens and a ratio B in range, the result is invalid and carries
  exactly two distinct errors, for the ratio first and for the tokens second.
\<close>

theorem pool_creation_two_errors:
  assumes "ratioA params \<le> 0" and "tokenAMint params = tokenBMint params"
    and "0 < ratioB params" and "ratioB params < 10 ^ 18"
  shows "validatePoolCreationParams params
           = \<lparr> isValid = False,
               errors = [js ''Ratio A must be positive'',
                         js ''Token A and Token B must be different''] \<rparr>
         \<and> js ''Ratio A must be positive'' \<noteq> js ''Token A and Token B must be different''
         \<and> length (errors (validatePoolCreationParams params)) = 2"
  using assms by (simp add: validatePoolCreationParams_def Let_def js_def)

theorem pool_creation_two_errors_witness:
  "validatePoolCreationParams
     \<lparr> tokenAMint = [1], tokenBMint = [1], ratioA = 0, ratioB = 160, userAuthority = [2] \<rparr>
   = \<lparr> isValid = False,
       errors = [js ''Ratio A must be positive'',
                 js ''Token A and Token B must be different''] \<rparr>"
  using pool_creation_two_errors [of
     "\<lparr> tokenAMint = [1], tokenBMint = [1], ratioA = 0, ratioB = 160, userAuthority = [2] \<rparr>"]
  by simp


section \<open>Properties of the log parsers\<close>

lemma match_here_prefix: "match_here label s = Some ds \<Longrightarrow> prefix label s"
  by (simp add: match_here_def split: if_splits)

lemma regex_match_includes: "regex_match label s = Some ds \<Longrightarrow> str_includes s label"
proof (induction s)
  case Nil
  then show ?case
    by (auto dest: match_here_prefix)
next
  case (Cons c cs)
  show ?case
  proof (cases "match_here label (c # cs)")
    case None
    with Cons show ?thesis by simp
  next
    case (Some a)
    then have "prefix label (c # cs)" by (rule match_here_prefix)
    then show ?thesis by simp
  qed
qed

lemma not_includes_no_match: "\<not> str_includes s label \<Longrightarrow> regex_match label s = None"
  using regex_match_includes [of label s] by (cases "regex_match label s") auto

lemma lastMatch_Nil: "lastMatch f [] = None"
  by (simp add: lastMatch_def List.map_filter_simps)

lemma lastMatch_Cons:
  "lastMatch f (l # ls) = (case lastMatch f ls of Some v \<Rightarrow> Some v | None \<Rightarrow> f l)"
  by (cases "f l"; cases "rev (List.map_filter f ls)")
     (simp_all add: lastMatch_def List.map_filter_simps)

lemma lastMatch_none: "list_all (\<lambda>l. f l = None) ls \<Longrightarrow> lastMatch f ls = None"
  by (induction ls) (simp_all add: lastMatch_Nil lastMatch_Cons)

text \<open>
  \<open>lastMatch\<close> is the value of a matching line that no later line overrides.
\<close>

lemma lastMatch_last:
  "f l = Some v \<Longrightarrow> list_all (\<lambda>l'. f l' = None) post \<Longrightarrow> lastMatch f (pre @ l # post) = Some v"
  by (induction pre) (simp_all add: lastMatch_Cons lastMatch_none)

lemma includes_guard:
  "(if str_includes log label then case_option info F (regex_match label log) else info)
     = case_option info F (regex_match label log)"
  by (simp add: not_includes_no_match)

lemma treasuryLogStep_fields:
  "p_totalBalance (treasuryLogStep info log)
     = (case numberAfter (js ''Total Balance:'') log of
          None \<Rightarrow> p_totalBalance info | Some v \<Rightarrow> Some v)"
  "p_totalFeesCollected (treasuryLogStep info log)
     = (case numberAfter (js ''Total Fees Collected:'') log of
          None \<Rightarrow> p_totalFeesCollected info | Some v \<Rightarrow> Some v)"
  "p_lastWithdrawalTime (treasuryLogStep info log)
     = (case numberAfter (js ''Last Withdrawal:'') log of
          None \<Rightarrow> p_lastWithdrawalTime info | Some v \<Rightarrow> Some v)"
  "p_withdrawalCount (treasuryLogStep info log)
     = (case countAfter (js ''Withdrawal Count:'') log of
          None \<Rightarrow> p_withdrawalCount info | Some v \<Rightarrow> Some v)"
  "p_donationCount (treasuryLogStep info log)
     = (case countAfter (js ''Donation Count:'') log of
          None \<Rightarrow> p_donationCount info | Some v \<Rightarrow> Some v)"
  "p_totalDonations (treasuryLogStep info log)
     = (case numberAfter (js ''Total Donations:'') log of
          None \<Rightarrow> p_totalDonations info | Some v \<Rightarrow> Some v)"
  by (simp_all add: treasuryLogStep_def Let_def includes_guard numberAfter_def
        countAfter_def split: option.splits)

lemma fold_last_match:
  assumes step: "\<And>info log. sel (stp info log) = (case f log of None \<Rightarrow> sel info | Some v \<Rightarrow> Some v)"
  shows "sel (foldl stp info logs) = (case lastMatch f logs of None \<Rightarrow> sel info | Some v \<Rightarrow> Some v)"
proof (induction logs arbitrary: info)
  case Nil
  show ?case by (simp add: lastMatch_Nil)
next
  case (Cons l ls)
  show ?case
    by (simp add: Cons.IH step lastMatch_Cons split: option.splits)
qed

lemma treasury_fold_fields:
  "p_totalBalance (foldl treasuryLogStep emptyTreasuryInfo logs)
     = lastMatch (numberAfter (js ''Total Balance:'')) logs"
  "p_totalFeesCollected (foldl treasuryLogStep emptyTreasuryInfo logs)
     = lastMatch (numberAfter (js ''Total Fees Collected:'')) logs"
  "p_lastWithdrawalTime (foldl treasuryLogStep emptyTreasuryInfo logs)
     = lastMatch (numberAfter (js ''Last Withdrawal:'')) logs"
  "p_withdrawalCount (foldl treasuryLogStep emptyTreasuryInfo logs)
     = lastMatch (countAfter (js ''Withdrawal Count:'')) logs"
  "p_donationCount (foldl treasuryLogStep emptyTreasuryInfo logs)
     = lastMatch (countAfter (js ''Donation Count:'')) logs"
  "p_totalDonations (foldl treasuryLogStep emptyTreasuryInfo logs)
     = lastMatch (numberAfter (js ''Total Donations:'')) logs"
  by (simp_all add: fold_last_match [where stp = treasuryLogStep, OF treasuryLogStep_fields(1)]
      fold_last_match [where stp = treasuryLogStep, OF treasuryLogStep_fields(2)]
      fold_last_match [where stp = treasuryLogStep, OF treasuryLogStep_fields(3)]
      fold_last_match [where stp = treasuryLogStep, OF treasuryLogStep_fields(4)]
      fold_last_match [where stp = treasuryLogStep, OF treasuryLogStep_fields(5)]
      fold_last_match [where stp = treasuryLogStep, OF treasuryLogStep_fields(6)]
      emptyTreasuryInfo_def split: option.splits)

lemma versionLogStep_fields:
  "name (versionLogStep vi log)
     = (case textAfter (js ''Contract Name:'') log of None \<Rightarrow> name vi | Some v \<Rightarrow> Some v)"
  "version (versionLogStep vi log)
     = (case textAfter (js ''Contract Version:'') log of None \<Rightarrow> version vi | Some v \<Rightarrow> Some v)"
  "buildDate (versionLogStep vi log)
     = (case textAfter (js ''Build Date:'') log of None \<Rightarrow> buildDate vi | Some v \<Rightarrow> Some v)"
  "rustVersion (versionLogStep vi log)
     = (case textAfter (js ''Rust Version:'') log of None \<Rightarrow> rustVersion vi | Some v \<Rightarrow> Some v)"
  by (simp_all add: versionLogStep_def Let_def textAfter_def)

lemma version_fold_fields:
  "name (foldl versionLogStep emptyVersionInfo logs)
     = lastMatch (textAfter (js ''Contract Name:'')) logs"
  "version (foldl versionLogStep emptyVersionInfo logs)
     = lastMatch (textAfter (js ''Contract Version:'')) logs"
  "buildDate (foldl versionLogStep emptyVersionInfo logs)
     = lastMatch (textAfter (js ''Build Date:'')) logs"
  "rustVersion (foldl versionLogStep emptyVersionInfo logs)
     = lastMatch (textAfter (js ''Rust Version:'')) logs"
  by (simp_all add: fold_last_match [where stp = versionLogStep, OF versionLogStep_fields(1)]
      fold_last_match [where stp = versionLogStep, OF versionLogStep_fields(2)]
      fold_last_match [where stp = versionLogStep, OF versionLogStep_fields(3)]
      fold_last_match [where stp = versionLogStep, OF versionLogStep_fields(4)]
      emptyVersionInfo_def split: option.splits)

lemma version_fold_record:
  "foldl versionLogStep emptyVersionInfo logs
     = \<lparr> name = lastMatch (textAfter (js ''Contract Name:'')) logs,
         version = lastMatch (textAfter (js ''Contract Version:'')) logs,
         buildDate = lastMatch (textAfter (js ''Build Date:'')) logs,
         rustVersion = lastMatch (textAfter (js ''Rust Version:'')) logs \<rparr>"
  by (rule VersionInfo.equality) (simp_all add: version_fold_fields)


lemma lastMatch_witness: "lastMatch f logs = Some v \<Longrightarrow> \<exists>l. f l = Some v"
  by (induction logs) (auto simp add: lastMatch_Nil lastMatch_Cons split: option.splits)

lemma lastMatch_map_option:
  "lastMatch (\<lambda>l. map_option g (f l)) logs = map_option g (lastMatch f logs)"
  by (induction logs) (simp_all add: lastMatch_Nil lastMatch_Cons split: option.splits)

lemma fl_not_NaN: "fl n d \<noteq> NaN"
  by (simp add: fl_def fl_pos_def dbl_neg_def Let_def)

lemma parseInt_falsy: "dbl_falsy (parseInt ds) \<Longrightarrow> parseInt ds = Finite 0 0"
  using fl_not_NaN [of "digits_value ds" 1]
  by (cases "fl (digits_value ds) 1") (simp_all add: parseInt_def dbl_falsy_def)

lemma number_or_zero_count:
  "number_or_zero (lastMatch (countAfter label) logs)
     = (case lastMatch (countAfter label) logs of None \<Rightarrow> Finite 0 0 | Some v \<Rightarrow> v)"
proof (cases "lastMatch (countAfter label) logs")
  case None
  then show ?thesis by (simp add: number_or_zero_def)
next
  case (Some v)
  then obtain l where "countAfter label l = Some v"
    using lastMatch_witness by fastforce
  then obtain ds where "v = parseInt ds"
    by (auto simp add: countAfter_def)
  with Some show ?thesis
    by (auto simp add: number_or_zero_def dest: parseInt_falsy)
qed

text \<open>
  C8. Parsing treasury logs needs no label to be present: the empty log list gives a
  snapshot whose six numeric fields are zero, and for any log list a field whose label
  occurs on no line is zero. The parser is a total function: it has no failing branch.
\<close>

theorem treasury_defaults:
  "parseTreasuryInfoFromLogs []
     = \<lparr> totalBalance = 0, totalFeesCollected = 0, lastWithdrawalTime = 0,
         withdrawalCount = Finite 0 0, donationCount = Finite 0 0, totalDonations = 0 \<rparr>
   \<and> ((\<forall>l \<in> set logs. \<not> str_includes l (js ''Total Balance:'')) \<longrightarrow>
        totalBalance (parseTreasuryInfoFromLogs logs) = 0)
   \<and> ((\<forall>l \<in> set logs. \<not> str_includes l (js ''Total Fees Collected:'')) \<longrightarrow>
        totalFeesCollected (parseTreasuryInfoFromLogs logs) = 0)
   \<and> ((\<forall>l \<in> set logs. \<not> str_includes l (js ''Last Withdrawal:'')) \<longrightarrow>
        lastWithdrawalTime (parseTreasuryInfoFromLogs logs) = 0)
   \<and> ((\<forall>l \<in> set logs. \<not> str_includes l (js ''Withdrawal Count:'')) \<longrightarrow>
        withdrawalCount (parseTreasuryInfoFromLogs logs) = Finite 0 0)
   \<and> ((\<forall>l \<in> set logs. \<not> str_includes l (js ''Donation Count:'')) \<longrightarrow>
        donationCount (parseTreasuryInfoFromLogs logs) = Finite 0 0)
   \<and> ((\<forall>l \<in> set logs. \<not> str_includes l (js ''Total Donations:'')) \<longrightarrow>
        totalDonations (parseTreasuryInfoFromLogs logs) = 0)"
proof -
  have absent: "lastMatch (numberAfter label) logs = None"
    if "\<forall>l \<in> set logs. \<not> str_includes l label" for label
  proof (rule lastMatch_none)
    show "list_all (\<lambda>l. numberAfter label l = None) logs"
      using that by (simp add: list_all_iff numberAfter_def not_includes_no_match)
  qed
  have absent_count: "lastMatch (countAfter label) logs = None"
    if "\<forall>l \<in> set logs. \<not> str_includes l label" for label
  proof (rule lastMatch_none)
    show "list_all (\<lambda>l. countAfter label l = None) logs"
      using that by (simp add: list_all_iff countAfter_def not_includes_no_match)
  qed
  have empty: "parseTreasuryInfoFromLogs []
     = \<lparr> totalBalance = 0, totalFeesCollected = 0, lastWithdrawalTime = 0,
         withdrawalCount = Finite 0 0, donationCount = Finite 0 0, totalDonations = 0 \<rparr>"
    by (simp add: parseTreasuryInfoFromLogs_def emptyTreasuryInfo_def bn_or_zero_def
          number_or_zero_def)
  show ?thesis
    unfolding empty
    by (simp add: parseTreasuryInfoFromLogs_def treasury_fold_fields absent absent_count
          bn_or_zero_def number_or_zero_def)
qed

theorem treasury_defaults_witness:
  "totalFeesCollected (parseTreasuryInfoFromLogs
      [js ''Program log: Total Balance: 5'', js ''Program log: Donation Count: 2'']) = 0
   \<and> withdrawalCount (parseTreasuryInfoFromLogs
      [js ''Program log: Total Balance: 5'', js ''Program log: Donation Count: 2''])
     = Finite 0 0"
proof -
  have a: "\<forall>l \<in> set [js ''Program log: Total Balance: 5'', js ''Program log: Donation Count: 2''].
            \<not> str_includes l (js ''Total Fees Collected:'')"
    by code_simp
  have b: "\<forall>l \<in> set [js ''Program log: Total Balance: 5'', js ''Program log: Donation Count: 2''].
            \<not> str_includes l (js ''Withdrawal Count:'')"
    by code_simp
  show ?thesis
    using treasury_defaults [of "[js ''Program log: Total Balance: 5'',
        js ''Program log: Donation Count: 2'']"] a b
    by blast
qed

text \<open>
  C10. When a label occurs on several lines, the last match wins: every field of the
  treasury snapshot is the number of the last line that matches the label's pattern (zero
  if there is none), the two counts as the binary64 values that \<open>parseInt\<close> returns,
  and the version string is formatted from the text of the last line containing each
  version label.
\<close>

theorem last_match_wins:
  "parseTreasuryInfoFromLogs logs
     = \<lparr> totalBalance =
           (case lastMatch (numberAfter (js ''Total Balance:'')) logs of
              None \<Rightarrow> 0 | Some v \<Rightarrow> v),
         totalFeesCollected =
           (case lastMatch (numberAfter (js ''Total Fees Collected:'')) logs of
              None \<Rightarrow> 0 | Some v \<Rightarrow> v),
         lastWithdrawalTime =
           (case lastMatch (numberAfter (js ''Last Withdrawal:'')) logs of
              None \<Rightarrow> 0 | Some v \<Rightarrow> v),
         withdrawalCount =
           (case lastMatch (countAfter (js ''Withdrawal Count:'')) logs of
              None \<Rightarrow> Finite 0 0 | Some v \<Rightarrow> v),
         donationCount =
           (case lastMatch (countAfter (js ''Donation Count:'')) logs of
              None \<Rightarrow> Finite 0 0 | Some v \<Rightarrow> v),
         totalDonations =
           (case lastMatch (numberAfter (js ''Total Donations:'')) logs of
              None \<Rightarrow> 0 | Some v \<Rightarrow> v) \<rparr>
   \<and> extractVersionFromLogs logs
     = formatVersionInfo
         \<lparr> name = lastMatch (textAfter (js ''Contract Name:'')) logs,
           version = lastMatch (textAfter (js ''Contract Version:'')) logs,
           buildDate = lastMatch (textAfter (js ''Build Date:'')) logs,
           rustVersion = lastMatch (textAfter (js ''Rust Version:'')) logs \<rparr>"
proof
  show "parseTreasuryInfoFromLogs logs
     = \<lparr> totalBalance =
           (case lastMatch (numberAfter (js ''Total Balance:'')) logs of
              None \<Rightarrow> 0 | Some v \<Rightarrow> v),
         totalFeesCollected =
           (case lastMatch (numberAfter (js ''Total Fees Collected:'')) logs of
              None \<Rightarrow> 0 | Some v \<Rightarrow> v),
         lastWithdrawalTime =
           (case lastMatch (numberAfter (js ''Last Withdrawal:'')) logs of
              None \<Rightarrow> 0 | Some v \<Rightarrow> v),
         withdrawalCount =
           (case lastMatch (countAfter (js ''Withdrawal Count:'')) logs of
              None \<Rightarrow> Finite 0 0 | Some v \<Rightarrow> v),
         donationCount =
           (case lastMatch (countAfter (js ''Donation Count:'')) logs of
              None \<Rightarrow> Finite 0 0 | Some v \<Rightarrow> v),
         totalDonations =
           (case lastMatch (numberAfter (js ''Total Donations:'')) logs of
              None \<Rightarrow> 0 | Some v \<Rightarrow> v) \<rparr>"
    unfolding parseTreasuryInfoFromLogs_def Let_def treasury_fold_fields number_or_zero_count
    by (simp add: bn_or_zero_def split: option.splits)
  show "extractVersionFromLogs logs
     = formatVersionInfo
         \<lparr> name = lastMatch (textAfter (js ''Contract Name:'')) logs,
           version = lastMatch (textAfter (js ''Contract Version:'')) logs,
           buildDate = lastMatch (textAfter (js ''Build Date:'')) logs,
           rustVersion = lastMatch (textAfter (js ''Rust Version:'')) logs \<rparr>"
    by (simp only: extractVersionFromLogs_def version_fold_record)
qed

theorem last_match_wins_witness:
  "totalBalance (parseTreasuryInfoFromLogs
      [js ''Program log: Total Balance: 5'', js ''Program log: Total Balance: 7'',
       js ''Program log: Total Balance: n/a'']) = 7
   \<and> withdrawalCount (parseTreasuryInfoFromLogs
      [js ''Withdrawal Count: 5'', js ''Withdrawal Count: 9007199254740993''])
     = Finite 9007199254740992 0
   \<and> extractVersionFromLogs
      [js ''Program log: Contract Version: 0.14.1039'', js ''Contract Version: 0.14.1040 '']
      = js ''Version: 0.14.1040''"
proof -
  have n: "lastMatch (numberAfter (js ''Total Balance:''))
      [js ''Program log: Total Balance: 5'', js ''Program log: Total Balance: 7'',
       js ''Program log: Total Balance: n/a''] = Some 7"
    by code_simp
  have r: "lastMatch (regex_match (js ''Withdrawal Count:''))
      [js ''Withdrawal Count: 5'', js ''Withdrawal Count: 9007199254740993'']
      = Some (js ''9007199254740993'')"
    by code_simp
  have d: "digits_value (js ''9007199254740993'') = 9007199254740993"
    by (simp add: digits_value_def js_def)
  have f: "fl 9007199254740993 1 = Finite 4503599627370496 1"
    by (simp add: fl_eval)
  have p: "parseInt (js ''9007199254740993'') = Finite 9007199254740992 0"
    unfolding parseInt_def d f by simp
  have c: "lastMatch (countAfter (js ''Withdrawal Count:''))
      [js ''Withdrawal Count: 5'', js ''Withdrawal Count: 9007199254740993'']
      = Some (Finite 9007199254740992 0)"
    unfolding countAfter_def lastMatch_map_option r by (simp add: p)
  have v: "formatVersionInfo
         \<lparr> name = lastMatch (textAfter (js ''Contract Name:''))
             [js ''Program log: Contract Version: 0.14.1039'', js ''Contract Version: 0.14.1040 ''],
           version = lastMatch (textAfter (js ''Contract Version:''))
             [js ''Program log: Contract Version: 0.14.1039'', js ''Contract Version: 0.14.1040 ''],
           buildDate = lastMatch (textAfter (js ''Build Date:''))
             [js ''Program log: Contract Version: 0.14.1039'', js ''Contract Version: 0.14.1040 ''],
           rustVersion = lastMatch (textAfter (js ''Rust Version:''))
             [js ''Program log: Contract Version: 0.14.1039'', js ''Contract Version: 0.14.1040 ''] \<rparr>
     = js ''Version: 0.14.1040''"
    by code_simp
  show ?thesis
    using last_match_wins [of "[js ''Program log: Total Balance: 5'',
       js ''Program log: Total Balance: 7'', js ''Program log: Total Balance: n/a'']"]
      last_match_wins [of "[js ''Withdrawal Count: 5'',
       js ''Withdrawal Count: 9007199254740993'']"]
      last_match_wins [of "[js ''Program log: Contract Version: 0.14.1039'',
       js ''Contract Version: 0.14.1040 '']"]
    by (simp add: n v c)
qed

section \<open>Properties of the donation payload\<close>

lemma utf8_units_length: "length (utf8_units us) \<le> 3 * length us"
proof (induction us rule: utf8_units.induct)
  case 1
  show ?case by simp
next
  case (2 u us)
  let ?c = "unat u"
  show ?case
  proof (cases "?c < 0x80")
    case True
    with 2(1) [OF refl] show ?thesis by (simp add: Let_def)
  next
    case c1: False
    show ?thesis
    proof (cases "?c < 0x800")
      case True
      with c1 2(2) [OF refl] show ?thesis by (simp add: Let_def)
    next
      case c2: False
      show ?thesis
      proof (cases "0xD800 \<le> ?c \<and> ?c < 0xDC00")
        case hi: True
        show ?thesis
        proof (cases us)
          case Nil
          with c1 c2 hi show ?thesis by (simp add: Let_def)
        next
          case (Cons v vs)
          show ?thesis
          proof (cases "0xDC00 \<le> unat v \<and> unat v < 0xE000")
            case True
            have ih: "length (utf8_units vs) \<le> 3 * length vs"
              by (rule 2(3) [OF refl c1 c2 hi Cons refl True refl])
            have "length (utf8_units (u # v # vs)) = 4 + length (utf8_units vs)"
              using c1 c2 hi True
              by (subst utf8_units.simps) (simp add: Let_def del: utf8_units.simps)
            with ih Cons show ?thesis by simp
          next
            case False
            have ih: "length (utf8_units us) \<le> 3 * length us"
              by (rule 2(4) [OF refl c1 c2 hi Cons refl False])
            have "length (utf8_units (u # v # vs)) = 3 + length (utf8_units (v # vs))"
              using c1 c2 hi False
              by (subst utf8_units.simps) (auto simp add: Let_def simp del: utf8_units.simps)
            with ih Cons show ?thesis by (simp del: utf8_units.simps)
          qed
        qed
      next
        case nhi: False
        show ?thesis
        proof (cases "0xDC00 \<le> ?c \<and> ?c < 0xE000")
          case True
          with c1 c2 nhi 2(5) [OF refl c1 c2 nhi True] show ?thesis by (auto simp add: Let_def)
        next
          case False
          with c1 c2 nhi 2(6) [OF refl c1 c2 nhi False] show ?thesis by (auto simp add: Let_def)
        qed
      qed
    qed
  qed
qed

lemma utf8_units_ascii:
  "\<forall>u \<in> set us. u < 0x80 \<Longrightarrow> utf8_units us = map ucast us"
proof (induction us)
  case Nil
  show ?case by simp
next
  case (Cons u us)
  then have "unat u < 0x80"
    by (simp add: word_less_nat_alt)
  with Cons show ?case
    by (simp add: Let_def)
qed

lemma encodeMessage_200:
  "encodeMessage m 200
     = Inr (le_bytes 4 (length (utf8_units (take 200 m))) @ utf8_units (take 200 m))"
proof -
  have "length (utf8_units (take 200 m)) \<le> 3 * length (take 200 m)"
    by (rule utf8_units_length)
  then have "length (utf8_units (take 200 m)) < 2 ^ 32"
    by simp
  then show ?thesis
    by (simp add: encodeMessage_def Let_def writeUInt32LE_def bindE_def)
qed

lemma donateSolData_u64:
  assumes "0 \<le> a" and "a < 2 ^ 64"
  shows "donateSolData a m
     = Inr ([13] @ le_bytes 8 (nat a) @ le_bytes 4 (length (utf8_units (take 200 m)))
            @ utf8_units (take 200 m))"
  by (simp add: donateSolData_def encodeMessage_200 toArrayLike_le_u64 [OF assms] bindE_def
        PoolInstruction_DonateSol_def)


lemma utf8_units_euro:
  "utf8_units (replicate n 0x20AC) = concat (replicate n [0xE2, 0x82, 0xAC])"
  by (induction n) (simp_all add: Let_def)

text \<open>
  C2, as the code has it. For an amount that fits 64 bits, the payload of
  \<open>createDonateSolInstruction\<close> is the opcode 13, the amount in eight little-endian
  bytes, a four-byte little-endian length \<open>L\<close> and then \<open>L\<close> bytes: the UTF-8
  encoding of the first 200 UTF-16 code units of the message. The cut is made on code
  units, not on bytes, so \<open>L\<close> is at most 600; it is at most 200 when the message is
  ASCII.
\<close>

theorem donation_payload_layout:
  assumes "0 \<le> amount params" and "amount params < 2 ^ 64"
    and "deriveSystemStatePDA env = Inr (s, sb)"
    and "deriveMainTreasuryPDA env = Inr (t, tb)"
    and "m = (case message params of None \<Rightarrow> [] | Some x \<Rightarrow> x)"
    and "msg = utf8_units (take 200 m)"
  shows "createDonateSolInstruction env params
           = Inr \<lparr> keys =
                   [ \<lparr> pubkey = donor params, isSigner = True, isWritable = True \<rparr>,
                     \<lparr> pubkey = t, isSigner = False, isWritable = True \<rparr>,
                     \<lparr> pubkey = s, isSigner = False, isWritable = False \<rparr>,
                     \<lparr> pubkey = SystemProgram_programId env, isSigner = False,
                       isWritable = False \<rparr> ],
                  programId = PROGRAM_ID env,
                  data = [13] @ le_bytes 8 (nat (amount params))
                         @ le_bytes 4 (length msg) @ msg \<rparr>
         \<and> length msg \<le> 600
         \<and> ((\<forall>u \<in> set m. u < 0x80) \<longrightarrow> msg = map ucast (take 200 m) \<and> length msg \<le> 200)"
proof (intro conjI impI)
  show "createDonateSolInstruction env params
           = Inr \<lparr> keys =
                   [ \<lparr> pubkey = donor params, isSigner = True, isWritable = True \<rparr>,
                     \<lparr> pubkey = t, isSigner = False, isWritable = True \<rparr>,
                     \<lparr> pubkey = s, isSigner = False, isWritable = False \<rparr>,
                     \<lparr> pubkey = SystemProgram_programId env, isSigner = False,
                       isWritable = False \<rparr> ],
                  programId = PROGRAM_ID env,
                  data = [13] @ le_bytes 8 (nat (amount params))
                         @ le_bytes 4 (length msg) @ msg \<rparr>"
    unfolding createDonateSolInstruction_def Let_def assms(3,4) assms(5) [symmetric]
      donateSolData_u64 [OF assms(1,2)] assms(6) [symmetric]
    by (simp add: bindE_def)
  have "length msg \<le> 3 * length (take 200 m)"
    unfolding assms(6) by (rule utf8_units_length)
  then show "length msg \<le> 600"
    by simp
next
  assume ascii: "\<forall>u \<in> set m. u < 0x80"
  then have "\<forall>u \<in> set (take 200 m). u < 0x80"
    by (meson in_set_takeD)
  then show eq: "msg = map ucast (take 200 m)"
    unfolding assms(6) by (rule utf8_units_ascii)
  then show "length msg \<le> 200"
    by simp
qed

theorem donation_payload_layout_witness:
  "createDonateSolInstruction
      \<lparr> PROGRAM_ID = [7], SystemProgram_programId = [0], TOKEN_PROGRAM_ID = [6],
        findProgramAddressSync = (\<lambda>seeds pid. Inr (concat seeds, 255)) \<rparr>
      \<lparr> donor = [1], amount = 100000000, message = Some (js ''gm'') \<rparr>
    = Inr \<lparr> keys =
             [ \<lparr> pubkey = [1], isSigner = True, isWritable = True \<rparr>,
               \<lparr> pubkey = utf8_units SEEDS_MAIN_TREASURY, isSigner = False, isWritable = True \<rparr>,
               \<lparr> pubkey = utf8_units SEEDS_SYSTEM_STATE, isSigner = False, isWritable = False \<rparr>,
               \<lparr> pubkey = [0], isSigner = False, isWritable = False \<rparr> ],
            programId = [7],
            data = [13, 0, 225, 245, 5, 0, 0, 0, 0, 2, 0, 0, 0, 103, 109] \<rparr>"
proof -
  have b: "le_bytes 8 100000000 = [0, 225, 245, 5, 0, 0, 0, 0]"
    "le_bytes 4 (Suc (Suc 0)) = [2, 0, 0, 0]"
    by (simp_all add: le_bytes_numeral)
  have u: "utf8_units (take 200 (js ''gm'')) = [103, 109]"
    by (simp add: js_def)
  show ?thesis
    using donation_payload_layout [where
      env = "\<lparr> PROGRAM_ID = [7], SystemProgram_programId = [0], TOKEN_PROGRAM_ID = [6],
             findProgramAddressSync = (\<lambda>seeds pid. Inr (concat seeds, 255)) \<rparr>"
      and params = "\<lparr> donor = [1], amount = 100000000, message = Some (js ''gm'') \<rparr>"
      and s = "utf8_units SEEDS_SYSTEM_STATE" and sb = 255
      and t = "utf8_units SEEDS_MAIN_TREASURY" and tb = 255
      and m = "js ''gm''" and msg = "utf8_units (take 200 (js ''gm''))"]
    by (simp add: deriveSystemStatePDA_def deriveMainTreasuryPDA_def b u)
qed


text \<open>
  The bound of 200 bytes for every message does not hold: a message of 67 euro signs is
  not truncated at all and is encoded in 201 bytes.
\<close>

theorem donation_length_counterexample:
  "donateSolData 1 (replicate 67 0x20AC)
     = Inr ([13, 1, 0, 0, 0, 0, 0, 0, 0, 201, 0, 0, 0]
            @ concat (replicate 67 [0xE2, 0x82, 0xAC]))
   \<and> length (concat (replicate 67 [0xE2, 0x82, 0xAC :: byte])) = 201
   \<and> \<not> (201 \<le> (200 :: nat))"
proof -
  have l: "length (concat (replicate 67 [0xE2, 0x82, 0xAC :: byte])) = 201"
    by (simp add: length_concat sum_list_replicate)
  have "donateSolData 1 (replicate 67 0x20AC)
     = Inr ([13] @ le_bytes 8 (nat 1) @ le_bytes 4 201
            @ concat (replicate 67 [0xE2, 0x82, 0xAC]))"
    by (subst donateSolData_u64) (simp_all add: utf8_units_euro l)
  then show ?thesis
    by (simp add: le_bytes_numeral l)
qed

section \<open>Properties of the token order\<close>

lemma string_lt_irrefl: "\<not> string_lt s s"
  by (induction s) simp_all

lemma string_lt_asym: "string_lt s t \<Longrightarrow> \<not> string_lt t s"
  by (induction s t rule: string_lt.induct) (auto split: if_splits)

lemma string_lt_total: "s \<noteq> t \<Longrightarrow> string_lt s t \<or> string_lt t s"
  by (induction s t rule: string_lt.induct) auto

lemma normalizeTokenOrder_swap_iff:
  "normalizeTokenOrder a b = normalizeTokenOrder b a
     \<longleftrightarrow> a = b \<or> Buffer_toString a \<noteq> Buffer_toString b"
proof (cases "Buffer_toString a = Buffer_toString b")
  case True
  then show ?thesis
    by (auto simp add: normalizeTokenOrder_def string_lt_irrefl)
next
  case False
  then have "a \<noteq> b" by auto
  moreover have "string_lt (Buffer_toString a) (Buffer_toString b)
      \<longleftrightarrow> \<not> string_lt (Buffer_toString b) (Buffer_toString a)"
    using False string_lt_total string_lt_asym by blast
  ultimately show ?thesis
    using False by (auto simp add: normalizeTokenOrder_def)
qed

lemma derivePoolStatePDA_swap:
  assumes "Buffer_toString a \<noteq> Buffer_toString b"
  shows "derivePoolStatePDA env a b ra rb = derivePoolStatePDA env b a ra rb"
proof -
  have "normalizeTokenOrder a b = normalizeTokenOrder b a"
    using assms by (simp add: normalizeTokenOrder_swap_iff)
  then show ?thesis
    by (simp add: derivePoolStatePDA_def poolStateSeeds_def)
qed

lemma utf8_decode_stray:
  assumes "0x80 \<le> unat c" and "unat c < 0xC2"
  shows "utf8_decode (0, 0, 0x80, 0xBF) (replicate n c) = replicate n 0xFFFD"
  using assms by (induction n) (simp_all add: utf8_lead_def)

lemma Buffer_toString_stray:
  assumes "0x80 \<le> unat c" and "unat c < 0xC2"
  shows "Buffer_toString (replicate n c) = replicate n 0xFFFD"
proof -
  have "concat (map utf16_units (replicate n 0xFFFD)) = replicate n 0xFFFD"
    by (induction n) (simp_all add: utf16_units_def)
  then show ?thesis
    by (simp add: Buffer_toString_def utf8_decode_stray [OF assms])
qed


text \<open>
  C1, at two distinct keys whose bytes are all ill-formed UTF-8. Both buffers decode to
  the same string of 32 replacement characters, neither compares smaller, and
  \<open>normalizeTokenOrder\<close> returns its arguments swapped in both call orders: the two
  calls of \<open>derivePoolStatePDA\<close> hand different seed lists to the derivation.
  Lemma \<open>derivePoolStatePDA_swap\<close> above gives the pairs for which the order is
  canonical: those whose decoded strings differ.
\<close>

theorem token_order_not_canonical:
  "normalizeTokenOrder (replicate 32 0x80) (replicate 32 0x81)
     = (replicate 32 0x81, replicate 32 0x80)
   \<and> normalizeTokenOrder (replicate 32 0x81) (replicate 32 0x80)
     = (replicate 32 0x80, replicate 32 0x81)
   \<and> poolStateSeeds (replicate 32 0x80) (replicate 32 0x81) 1 160
     = Inr [utf8_units SEEDS_POOL_STATE_V2, replicate 32 0x81, replicate 32 0x80,
            [1, 0, 0, 0, 0, 0, 0, 0], [160, 0, 0, 0, 0, 0, 0, 0]]
   \<and> poolStateSeeds (replicate 32 0x81) (replicate 32 0x80) 1 160
     = Inr [utf8_units SEEDS_POOL_STATE_V2, replicate 32 0x80, replicate 32 0x81,
            [1, 0, 0, 0, 0, 0, 0, 0], [160, 0, 0, 0, 0, 0, 0, 0]]
   \<and> poolStateSeeds (replicate 32 0x80) (replicate 32 0x81) 1 160
     \<noteq> poolStateSeeds (replicate 32 0x81) (replicate 32 0x80) 1 160
   \<and> derivePoolStatePDA env (replicate 32 0x80) (replicate 32 0x81) 1 160
     = findProgramAddressSync env
         [utf8_units SEEDS_POOL_STATE_V2, replicate 32 0x81, replicate 32 0x80,
          [1, 0, 0, 0, 0, 0, 0, 0], [160, 0, 0, 0, 0, 0, 0, 0]] (PROGRAM_ID env)
   \<and> derivePoolStatePDA env (replicate 32 0x81) (replicate 32 0x80) 1 160
     = findProgramAddressSync env
         [utf8_units SEEDS_POOL_STATE_V2, replicate 32 0x80, replicate 32 0x81,
          [1, 0, 0, 0, 0, 0, 0, 0], [160, 0, 0, 0, 0, 0, 0, 0]] (PROGRAM_ID env)"
proof -
  have s80: "Buffer_toString (replicate 32 0x80) = replicate 32 0xFFFD"
    by (rule Buffer_toString_stray) simp_all
  have s81: "Buffer_toString (replicate 32 0x81) = replicate 32 0xFFFD"
    by (rule Buffer_toString_stray) simp_all
  have ne: "replicate 32 (0x80 :: byte) \<noteq> replicate 32 0x81"
    by (simp add: replicate_eq_replicate)
  have n1: "normalizeTokenOrder (replicate 32 0x80) (replicate 32 0x81)
     = (replicate 32 0x81, replicate 32 0x80)"
    by (simp add: normalizeTokenOrder_def s80 s81 string_lt_irrefl)
  have n2: "normalizeTokenOrder (replicate 32 0x81) (replicate 32 0x80)
     = (replicate 32 0x80, replicate 32 0x81)"
    by (simp add: normalizeTokenOrder_def s80 s81 string_lt_irrefl)
  have r: "toArrayLike_le 1 8 = Inr [1, 0, 0, 0, 0, 0, 0, 0]"
    "toArrayLike_le 160 8 = Inr [160, 0, 0, 0, 0, 0, 0, 0]"
    by (simp_all add: toArrayLike_le_def le_bytes_numeral)
  have p1: "poolStateSeeds (replicate 32 0x80) (replicate 32 0x81) 1 160
     = Inr [utf8_units SEEDS_POOL_STATE_V2, replicate 32 0x81, replicate 32 0x80,
            [1, 0, 0, 0, 0, 0, 0, 0], [160, 0, 0, 0, 0, 0, 0, 0]]"
    unfolding poolStateSeeds_def n1 by (simp add: r bindE_def)
  have p2: "poolStateSeeds (replicate 32 0x81) (replicate 32 0x80) 1 160
     = Inr [utf8_units SEEDS_POOL_STATE_V2, replicate 32 0x80, replicate 32 0x81,
            [1, 0, 0, 0, 0, 0, 0, 0], [160, 0, 0, 0, 0, 0, 0, 0]]"
    unfolding poolStateSeeds_def n2 by (simp add: r bindE_def)
  have d: "poolStateSeeds (replicate 32 0x80) (replicate 32 0x81) 1 160
     \<noteq> poolStateSeeds (replicate 32 0x81) (replicate 32 0x80) 1 160"
    unfolding p1 p2 using ne by simp
  have a1: "derivePoolStatePDA env (replicate 32 0x80) (replicate 32 0x81) 1 160
     = findProgramAddressSync env
         [utf8_units SEEDS_POOL_STATE_V2, replicate 32 0x81, replicate 32 0x80,
          [1, 0, 0, 0, 0, 0, 0, 0], [160, 0, 0, 0, 0, 0, 0, 0]] (PROGRAM_ID env)"
    unfolding derivePoolStatePDA_def p1 by (simp add: bindE_def)
  have a2: "derivePoolStatePDA env (replicate 32 0x81) (replicate 32 0x80) 1 160
     = findProgramAddressSync env
         [utf8_units SEEDS_POOL_STATE_V2, replicate 32 0x80, replicate 32 0x81,
          [1, 0, 0, 0, 0, 0, 0, 0], [160, 0, 0, 0, 0, 0, 0, 0]] (PROGRAM_ID env)"
    unfolding derivePoolStatePDA_def p2 by (simp add: bindE_def)
  from n1 n2 p1 p2 d a1 a2 show ?thesis
    by (intro conjI)
qed

section \<open>Properties of the display conversion\<close>

lemma Math_pow10_2: "Math_pow10 approx 2 = Finite 7036874417766400 (- 46)"
  by (simp add: Math_pow10_def fl_eval)

lemma fromBasisPoints_435:
  "fromBasisPoints approx 435 2 = Inr (Finite 4897664594765414 (- 50))"
  by (simp add: fromBasisPoints_def Math_pow10_2 BN_toNumber_def bindE_def fl_eval)

lemma toBasisPoints_435:
  "toBasisPoints approx (Finite 4897664594765414 (- 50)) 2 = Inr 434"
  by (simp add: toBasisPoints_def Math_pow10_2 BN_of_number_def Math_floor_def fl_eval)


text \<open>
  C3, at \<open>x = 435\<close> and two decimals. \<open>435 / 100\<close> rounds to a binary64 value
  below 4.35, its product with 100 rounds to a value below 435, and \<open>Math.floor\<close>
  returns 434: the round trip loses a unit.
\<close>

theorem display_round_trip_loses_a_unit:
  "fromBasisPoints approx 435 2 = Inr (Finite 4897664594765414 (- 50))
   \<and> toBasisPoints approx (Finite 4897664594765414 (- 50)) 2 = Inr 434
   \<and> bindE (fromBasisPoints approx 435 2) (\<lambda>a. toBasisPoints approx a 2) = Inr 434"
  by (simp add: fromBasisPoints_435 toBasisPoints_435 bindE_def)

end
